theory Spec2Isabelle
  imports Main
begin

section \<open>The operating-system interface used by shell.c\<close>

text \<open>
  shell.c is a sequence of system calls on the descriptor table of the calling process.
  The state below is what one process sees: its descriptor table, the files that exist
  (with their permission bits), which of them hold a program image that the kernel can
  load, the descriptor limit, the results that later calls of
  fork and waitpid will give to this process, the global variable \<open>childPid\<close> of
  shell.c, and the log of the calls made so far, oldest first.
\<close>

datatype oflag = O_RDONLY | O_WRONLY | O_CREAT | O_TRUNC | O_APPEND

datatype perm =
    S_IRUSR | S_IWUSR | S_IXUSR
  | S_IRGRP | S_IWGRP | S_IXGRP
  | S_IROTH | S_IWOTH | S_IXOTH

datatype ofile =
    Terminal
  | File string "oflag set"
  | PipeRead nat
  | PipeWrite nat

datatype wstatus = WExited int | WSignaled int | WStopped int

datatype event =
    EvOpen "string option" "oflag set" "perm set"
  | EvClose int
  | EvDup2 int int
  | EvPipe
  | EvFork
  | EvExecv "string option" "string list"
  | EvKill int int
  | EvWaitpid int
  | EvUnlink string
  | EvOpendir string
  | EvPerror string
  | EvPrintf string
  | EvExit int

record proc =
  fdt :: "int \<Rightarrow> ofile option"
  fs :: "string \<Rightarrow> perm set option"
  loadable :: "string \<Rightarrow> bool"
  nofile :: nat
  npipes :: nat
  forks :: "int list"
  waits :: "wstatus list"
  childPid :: int
  trace :: "event list"

definition STDIN_FILENO :: int where "STDIN_FILENO = 0"
definition STDOUT_FILENO :: int where "STDOUT_FILENO = 1"
definition STDERR_FILENO :: int where "STDERR_FILENO = 2"
definition SIGINT :: int where "SIGINT = 2"

definition S_IRWXU :: "perm set" where
  "S_IRWXU = {S_IRUSR, S_IWUSR, S_IXUSR}"

definition logev :: "event \<Rightarrow> proc \<Rightarrow> proc" where
  "logev e p = p\<lparr>trace := trace p @ [e]\<rparr>"

text \<open>A new descriptor is the lowest number below the limit that is not open.\<close>

definition lowest_free :: "proc \<Rightarrow> int option" where
  "lowest_free p = find (\<lambda>fd. fdt p fd = None) (map int [0..<nofile p])"

definition may_access :: "oflag set \<Rightarrow> perm set \<Rightarrow> bool" where
  "may_access flags pm =
     ((if O_WRONLY \<in> flags then S_IWUSR \<in> pm else True) \<and>
      (if O_RDONLY \<in> flags then S_IRUSR \<in> pm else True))"

definition install :: "string \<Rightarrow> oflag set \<Rightarrow> proc \<Rightarrow> int \<times> proc" where
  "install name flags p =
     (case lowest_free p of
        None \<Rightarrow> (- 1, p)
      | Some fd \<Rightarrow> (fd, p\<lparr>fdt := (fdt p)(fd \<mapsto> File name flags)\<rparr>))"

text \<open>
  open(path, flags, mode): fails (-1) on a NULL path, on a missing file without O_CREAT,
  on a file whose owner bits do not allow the access, and when no descriptor is free.
  A file created by the call gets the permission bits of \<open>mode\<close>.
\<close>

definition sys_open :: "string option \<Rightarrow> oflag set \<Rightarrow> perm set \<Rightarrow> proc \<Rightarrow> int \<times> proc" where
  "sys_open path flags mode p =
     (let p1 = logev (EvOpen path flags mode) p in
      case path of
        None \<Rightarrow> (- 1, p1)
      | Some name \<Rightarrow>
          (case fs p1 name of
             None \<Rightarrow>
               if O_CREAT \<in> flags
               then (case install name flags p1 of
                       (fd, p2) \<Rightarrow>
                         if fd < 0 then (fd, p2) else (fd, p2\<lparr>fs := (fs p2)(name \<mapsto> mode)\<rparr>))
               else (- 1, p1)
           | Some pm \<Rightarrow>
               if may_access flags pm then install name flags p1 else (- 1, p1)))"

definition sys_close :: "int \<Rightarrow> proc \<Rightarrow> proc" where
  "sys_close fd p = (logev (EvClose fd) p)\<lparr>fdt := (fdt p)(fd := None)\<rparr>"

text \<open>dup2(old, new): nothing happens when old is not open or equals new.\<close>

definition sys_dup2 :: "int \<Rightarrow> int \<Rightarrow> proc \<Rightarrow> proc" where
  "sys_dup2 oldfd newfd p =
     (let p1 = logev (EvDup2 oldfd newfd) p in
      if fdt p oldfd = None then p1
      else if oldfd = newfd then p1
      else p1\<lparr>fdt := (fdt p)(newfd := fdt p oldfd)\<rparr>)"

text \<open>pipe(fds): the two lowest free descriptors, read end first; -1 when there are not two.\<close>

definition sys_pipe :: "proc \<Rightarrow> int \<times> (int \<times> int) \<times> proc" where
  "sys_pipe p =
     (let p1 = logev EvPipe p in
      case lowest_free p1 of
        None \<Rightarrow> (- 1, (0, 0), p1)
      | Some r \<Rightarrow>
          (let p2 = p1\<lparr>fdt := (fdt p1)(r \<mapsto> PipeRead (npipes p1))\<rparr> in
           case lowest_free p2 of
             None \<Rightarrow> (- 1, (0, 0), p1)
           | Some w \<Rightarrow>
               (0, (r, w),
                p2\<lparr>fdt := (fdt p2)(w \<mapsto> PipeWrite (npipes p1)), npipes := Suc (npipes p1)\<rparr>)))"

text \<open>
  fork(): the value returned in this process is the next one of \<open>forks\<close>: 0 in a child,
  the child's process ID in a parent, negative on failure; with none left the call fails.
\<close>

definition sys_fork :: "proc \<Rightarrow> int \<times> proc" where
  "sys_fork p =
     (let p1 = logev EvFork p in
      case forks p1 of
        [] \<Rightarrow> (- 1, p1)
      | pid # rest \<Rightarrow> (pid, p1\<lparr>forks := rest\<rparr>))"

text \<open>
  execv(path, argv) replaces the process image when the file exists, its owner may execute
  it and it holds a program image that the kernel can load; otherwise it returns -1.
\<close>

definition execv_ok :: "string option \<Rightarrow> proc \<Rightarrow> bool" where
  "execv_ok path p =
     (case path of
        None \<Rightarrow> False
      | Some name \<Rightarrow>
          (case fs p name of
             None \<Rightarrow> False
           | Some pm \<Rightarrow> S_IXUSR \<in> pm \<and> loadable p name))"

text \<open>kill(pid, sig): the first argument is the process, the second the signal.\<close>

definition sys_kill :: "int \<Rightarrow> int \<Rightarrow> proc \<Rightarrow> proc" where
  "sys_kill pid sig p = logev (EvKill pid sig) p"

definition sys_exit :: "int \<Rightarrow> proc \<Rightarrow> proc" where
  "sys_exit status p = logev (EvExit status) p"

definition perror :: "string \<Rightarrow> proc \<Rightarrow> proc" where
  "perror msg p = logev (EvPerror msg) p"

definition printf :: "string \<Rightarrow> proc \<Rightarrow> proc" where
  "printf msg p = logev (EvPrintf msg) p"

section \<open>shell.c\<close>

text \<open>How a process stops running the code of shell.c.\<close>

datatype halt =
    Exited int
  | Execd string "string list"
  | Fault

definition PARENT_PID :: "int \<Rightarrow> bool" where
  "PARENT_PID pid = (pid > 0)"

definition CHILD_PID :: "int \<Rightarrow> bool" where
  "CHILD_PID pid = (pid = 0)"

subsection \<open>isSpecial and parseArgs\<close>

text \<open>
  A token is a C string, so it holds no NUL character and \<open>strchr\<close> finds a character of
  the token in the given set exactly when it is a member of it.
\<close>

definition isSpecial :: "string \<Rightarrow> bool" where
  "isSpecial token =
     ((length token = 1 \<and> token ! 0 \<in> set ''<>|'') \<or>
      (length token = 2 \<and> token ! 1 \<in> set ''>''))"

text \<open>
  The line is the list of tokens before the NULL that ends the array: \<open>line[i]\<close> is a
  token for \<open>i < length line\<close>, NULL for \<open>i = length line\<close>, and outside the array beyond.
  The argument array \<open>args\<close> has \<open>length args\<close> cells (MAX_ARGS in the callers); a write
  outside it, or a read outside the line, is the result \<open>None\<close>.

  The loop of parseArgs, with the loop variable \<open>i\<close> as a parameter.
\<close>

function parseArgs_loop ::
  "string option list \<Rightarrow> string list \<Rightarrow> nat \<Rightarrow> nat \<Rightarrow> (string option list \<times> nat) option" where
  "parseArgs_loop args line lineIndex i =
     (if length line < lineIndex then None
      else if lineIndex < length line \<and> \<not> isSpecial (line ! lineIndex)
      then (if i < length args
            then parseArgs_loop (args[i := Some (line ! lineIndex)]) line (Suc lineIndex) (Suc i)
            else None)
      else (if i < length args then Some (args[i := None], lineIndex) else None))"
  by pat_completeness auto
termination
  by (relation "measure (\<lambda>(args, line, lineIndex, i). length line - lineIndex)") auto

definition parseArgs ::
  "string option list \<Rightarrow> string list \<Rightarrow> nat \<Rightarrow> (string option list \<times> nat) option" where
  "parseArgs args line lineIndex = parseArgs_loop args line lineIndex 0"

text \<open>The pointer \<open>line[i]\<close> for \<open>i\<close> up to the terminating NULL.\<close>

definition line_at :: "string list \<Rightarrow> nat \<Rightarrow> string option" where
  "line_at line i = (if i < length line then Some (line ! i) else None)"

declare parseArgs_loop.simps [simp del]

subsection \<open>The redirections\<close>

text \<open>
  Each returns \<open>Some\<close> of how the process stopped, or \<open>None\<close> when it goes on.
  Messages are logged without their final newline.
\<close>

definition doAppendRedirection :: "string option \<Rightarrow> proc \<Rightarrow> halt option \<times> proc" where
  "doAppendRedirection filename p =
     (case sys_open filename {O_CREAT, O_APPEND, O_WRONLY} S_IRWXU p of
        (file, p1) \<Rightarrow>
          if file < 0
          then (Some (Exited 1), sys_exit 1 (perror ''Error Opening file for append'' p1))
          else (None, sys_close file (sys_dup2 file STDOUT_FILENO p1)))"

definition doStdoutRedirection :: "string option \<Rightarrow> proc \<Rightarrow> halt option \<times> proc" where
  "doStdoutRedirection filename p =
     (case sys_open filename {O_CREAT, O_TRUNC, O_WRONLY} S_IRWXU p of
        (file, p1) \<Rightarrow>
          if file < 0
          then (Some (Exited 1), sys_exit 1 (perror ''Error Opening file for Stdout'' p1))
          else (None, sys_close file (sys_dup2 file STDOUT_FILENO p1)))"

definition doStderrRedirection :: "string option \<Rightarrow> proc \<Rightarrow> halt option \<times> proc" where
  "doStderrRedirection filename p =
     (case sys_open filename {O_CREAT, O_TRUNC, O_WRONLY} S_IRWXU p of
        (file, p1) \<Rightarrow>
          if file < 0
          then (Some (Exited 1), sys_exit 1 (perror ''Error Opening file for Stdout'' p1))
          else (None, sys_close file (sys_dup2 file STDERR_FILENO p1)))"

definition doStdoutStderrRedirection :: "string option \<Rightarrow> proc \<Rightarrow> halt option \<times> proc" where
  "doStdoutStderrRedirection filename p =
     (case sys_open filename {O_CREAT, O_TRUNC, O_WRONLY} S_IRWXU p of
        (file, p1) \<Rightarrow>
          if file < 0
          then (Some (Exited 1), sys_exit 1 (perror ''Error Opening file for Stdout'' p1))
          else (None,
                sys_close file (sys_dup2 file STDERR_FILENO (sys_dup2 file STDOUT_FILENO p1))))"

definition doStdinRedirection :: "string option \<Rightarrow> proc \<Rightarrow> halt option \<times> proc" where
  "doStdinRedirection filename p =
     (case sys_open filename {O_RDONLY} S_IRWXU p of
        (file, p1) \<Rightarrow>
          if file < 0
          then (Some (Exited 1), sys_exit 1 (perror ''Error Opening file for Stdin'' p1))
          else (None, sys_close file (sys_dup2 file STDIN_FILENO p1)))"

subsection \<open>run and the wrappers\<close>

text \<open>
  The argument vector that execv reads from the array: the cells before the first NULL.
  An array without a NULL is read past its end.
\<close>

definition argv_of :: "string option list \<Rightarrow> string list" where
  "argv_of args = map the (takeWhile (\<lambda>a. a \<noteq> None) args)"

definition run :: "string option list \<Rightarrow> proc \<Rightarrow> halt \<times> proc" where
  "run args p =
     (if None \<in> set args
      then (let p1 = logev (EvExecv (hd args) (argv_of args)) p in
            if execv_ok (hd args) p
            then (Execd (the (hd args)) (argv_of args), p1)
            else (Exited 1, sys_exit 1 (perror ''execv'' p1)))
      else (Fault, p))"

definition forkWrapper :: "proc \<Rightarrow> (halt + int) \<times> proc" where
  "forkWrapper p =
     (case sys_fork p of
        (pid, p1) \<Rightarrow>
          if pid < 0 then (Inl (Exited 2), sys_exit 2 (perror ''fork'' p1))
          else (Inr pid, p1))"

definition pipeWrapper :: "proc \<Rightarrow> (halt + int \<times> int) \<times> proc" where
  "pipeWrapper p =
     (case sys_pipe p of
        (pipeNo, pipefds, p1) \<Rightarrow>
          if pipeNo < 0 then (Inl (Exited 4), sys_exit 4 (perror ''pipe'' p1))
          else (Inr pipefds, p1))"

subsection \<open>continueProcessingLine and doPipe\<close>

text \<open>
  The result is how the process stopped (\<open>None\<close> when the function returned to its
  caller), the value left in \<open>*lineIndex\<close>, and the state. MAX_ARGS comes from
  shellParser.h, which is not among the sources, so it is a parameter. The arrays that
  main and doPipe declare are not initialised by the code; here their cells start as
  NULL, and parseArgs does not read them.
\<close>

function continueProcessingLine ::
    "nat \<Rightarrow> string list \<Rightarrow> nat \<Rightarrow> string option list \<Rightarrow> proc \<Rightarrow> halt option \<times> nat \<times> proc"
  and doPipe ::
    "nat \<Rightarrow> string option list \<Rightarrow> string list \<Rightarrow> nat \<Rightarrow> proc \<Rightarrow> halt option \<times> nat \<times> proc"
where
  "continueProcessingLine MAX_ARGS line lineIndex args p =
     (if length line < lineIndex then (Some Fault, lineIndex, p)
      else
        case line_at line lineIndex of
          None \<Rightarrow> (case run args p of (h, p1) \<Rightarrow> (Some h, lineIndex, p1))
        | Some token \<Rightarrow>
            if token = ''>>'' then
              (case doAppendRedirection (line_at line (Suc lineIndex)) p of
                 (Some h, p1) \<Rightarrow> (Some h, Suc lineIndex, p1)
               | (None, p1) \<Rightarrow>
                   continueProcessingLine MAX_ARGS line (Suc (Suc lineIndex)) args p1)
            else if token = ''2>'' then
              (case doStderrRedirection (line_at line (Suc lineIndex)) p of
                 (Some h, p1) \<Rightarrow> (Some h, Suc lineIndex, p1)
               | (None, p1) \<Rightarrow>
                   continueProcessingLine MAX_ARGS line (Suc (Suc lineIndex)) args p1)
            else if token = ''&>'' then
              (case doStdoutStderrRedirection (line_at line (Suc lineIndex)) p of
                 (Some h, p1) \<Rightarrow> (Some h, Suc lineIndex, p1)
               | (None, p1) \<Rightarrow>
                   continueProcessingLine MAX_ARGS line (Suc (Suc lineIndex)) args p1)
            else if token = ''>'' then
              (case doStdoutRedirection (line_at line (Suc lineIndex)) p of
                 (Some h, p1) \<Rightarrow> (Some h, Suc lineIndex, p1)
               | (None, p1) \<Rightarrow>
                   continueProcessingLine MAX_ARGS line (Suc (Suc lineIndex)) args p1)
            else if token = ''<'' then
              (case doStdinRedirection (line_at line (Suc lineIndex)) p of
                 (Some h, p1) \<Rightarrow> (Some h, Suc lineIndex, p1)
               | (None, p1) \<Rightarrow>
                   continueProcessingLine MAX_ARGS line (Suc (Suc lineIndex)) args p1)
            else if token = ''|'' then doPipe MAX_ARGS args line (Suc lineIndex) p
            else (None, lineIndex, p))"
| "doPipe MAX_ARGS p1Args line lineIndex p =
     (case pipeWrapper p of
        (Inl h, p1) \<Rightarrow> (Some h, lineIndex, p1)
      | (Inr (rfd, wfd), p1) \<Rightarrow>
          (case forkWrapper p1 of
             (Inl h, p2) \<Rightarrow> (Some h, lineIndex, p2)
           | (Inr pid, p2) \<Rightarrow>
               if CHILD_PID pid
               then (case run p1Args (sys_dup2 wfd STDOUT_FILENO (sys_close rfd p2)) of
                       (h, p3) \<Rightarrow> (Some h, lineIndex, p3))
               else
                 (let p3 = printf ''Finish parent pipe ''
                             (sys_dup2 rfd STDIN_FILENO
                               (printf ''right before doing read in parent pipe ''
                                 (sys_close wfd p2)))
                  in case parseArgs (replicate MAX_ARGS None) line lineIndex of
                       None \<Rightarrow> (Some Fault, lineIndex, p3)
                     | Some (args, lineIndex') \<Rightarrow>
                         continueProcessingLine MAX_ARGS line lineIndex' args p3)))"
  by pat_completeness auto
termination
proof -
  have mono: "parseArgs_loop args line i k = Some (r, j) \<Longrightarrow> i \<le> j" for args line i k r j
  proof (induction args line i k rule: parseArgs_loop.induct)
    case (1 args line lineIndex i)
    then show ?case
      by (subst (asm) (2) parseArgs_loop.simps) (auto split: if_splits)
  qed
  show ?thesis
    by (relation "measure (case_sum
            (\<lambda>(m, line, i, args, p). 2 * (Suc (length line) - i))
            (\<lambda>(m, args, line, i, p). 2 * (Suc (length line) - i) + 1))")
       (auto simp: line_at_def parseArgs_def dest: mono split: if_splits)
qed

declare continueProcessingLine.simps [simp del] doPipe.simps [simp del]

subsection \<open>The built-in commands\<close>

definition sys_unlink :: "string \<Rightarrow> proc \<Rightarrow> proc" where
  "sys_unlink name p = (logev (EvUnlink name) p)\<lparr>fs := (fs p)(name := None)\<rparr>"

text \<open>doLs opens the directory and prints its entries; only the opendir call is logged.\<close>

definition doLs :: "string option list \<Rightarrow> proc \<Rightarrow> halt option \<times> proc" where
  "doLs args p =
     (if length args < 2 then (Some Fault, p)
      else case args ! 1 of
             None \<Rightarrow> (None, logev (EvOpendir ''./'') p)
           | Some dir \<Rightarrow> (None, logev (EvOpendir dir) p))"

definition doRm :: "string option list \<Rightarrow> proc \<Rightarrow> halt option \<times> proc" where
  "doRm args p =
     (if length args < 2 \<or> None \<notin> set args then (Some Fault, p)
      else case args ! 1 of
             None \<Rightarrow> (None, printf ''ERROR: No File Specified '' p)
           | Some f \<Rightarrow> (None, fold sys_unlink (tl (argv_of args)) p))"

subsection \<open>main and signalHandler\<close>

text \<open>
  The loop around waitpid: it goes on while the reported status is a stop. The statuses
  that waitpid will report are \<open>waits\<close>; when none is left the call never returns,
  which is the result \<open>None\<close>.
\<close>

fun wait_loop :: "int \<Rightarrow> wstatus list \<Rightarrow> proc \<Rightarrow> (wstatus \<times> proc) option" where
  "wait_loop pid [] p = None"
| "wait_loop pid (s # ss) p =
     (let p1 = (logev (EvWaitpid pid) p)\<lparr>waits := ss\<rparr> in
      case s of
        WStopped sig \<Rightarrow> wait_loop pid ss p1
      | _ \<Rightarrow> Some (s, p1))"

text \<open>The body of the loop of main, for one line that is not \<open>exit\<close>.\<close>

definition main_iteration ::
  "nat \<Rightarrow> string list \<Rightarrow> proc \<Rightarrow> (halt option \<times> proc) option" where
  "main_iteration MAX_ARGS line p =
     (if line = [] then Some (None, p)
      else
        case parseArgs (replicate MAX_ARGS None) line 0 of
          None \<Rightarrow> Some (Some Fault, p)
        | Some (args, lineIndex) \<Rightarrow>
            (case hd args of
               None \<Rightarrow> Some (Some Fault, p)
             | Some cmd \<Rightarrow>
                 if cmd = ''ls'' then Some (doLs args p)
                 else if cmd = ''rm'' then Some (doRm args p)
                 else
                   (case forkWrapper p of
                      (Inl h, p1) \<Rightarrow> Some (Some h, p1)
                    | (Inr pid, p1) \<Rightarrow>
                        (let p2 = p1\<lparr>childPid := pid\<rparr> in
                         if CHILD_PID (childPid p2)
                         then (case continueProcessingLine MAX_ARGS line lineIndex args p2 of
                                 (h, lineIndex', p3) \<Rightarrow> Some (h, p3))
                         else (case wait_loop (childPid p2) (waits p2) p2 of
                                 None \<Rightarrow> None
                               | Some (status, p3) \<Rightarrow>
                                   Some (None, printf ''Child %ld exited with status %d '' p3))))))"

text \<open>main over the lines that the tokenizer returns, one list of tokens per line.\<close>

fun main_loop :: "nat \<Rightarrow> string list list \<Rightarrow> proc \<Rightarrow> (halt option \<times> proc) option" where
  "main_loop MAX_ARGS [] p = Some (None, printf ''(%d) $ '' p)"
| "main_loop MAX_ARGS (line # rest) p =
     (let p0 = printf ''(%d) $ '' p in
      if line = [] \<or> hd line \<noteq> ''exit''
      then (case main_iteration MAX_ARGS line p0 of
              None \<Rightarrow> None
            | Some (Some h, p1) \<Rightarrow> Some (Some h, p1)
            | Some (None, p1) \<Rightarrow> main_loop MAX_ARGS rest p1)
      else Some (Some (Exited 0), p0))"

definition signalHandler :: "proc \<Rightarrow> proc" where
  "signalHandler p = (if PARENT_PID (childPid p) then sys_kill SIGINT (childPid p) p else p)"

subsection \<open>Vocabulary of the properties\<close>

text \<open>The six tokens that continueProcessingLine compares the token under the cursor with.\<close>

definition operator_tokens :: "string list" where
  "operator_tokens = [''>>'', ''2>'', ''&>'', ''>'', ''<'', ''|'']"

text \<open>The consecutive tokens from the cursor on that isSpecial does not accept.\<close>

definition plain_run :: "string list \<Rightarrow> nat \<Rightarrow> string list" where
  "plain_run line lineIndex = takeWhile (\<lambda>t. \<not> isSpecial t) (drop lineIndex line)"

text \<open>
  The redirection modes and the table of section 4.1 of the specification: the flags each
  mode opens its file with and the standard descriptors it rebinds.
\<close>

datatype redirection = APPEND | STDOUT | STDERR | STDOUT_AND_STDERR | STDIN

fun table_flags :: "redirection \<Rightarrow> oflag set" where
  "table_flags STDOUT = {O_CREAT, O_TRUNC, O_WRONLY}"
| "table_flags APPEND = {O_CREAT, O_APPEND, O_WRONLY}"
| "table_flags STDERR = {O_CREAT, O_TRUNC, O_WRONLY}"
| "table_flags STDOUT_AND_STDERR = {O_CREAT, O_TRUNC, O_WRONLY}"
| "table_flags STDIN = {O_RDONLY}"

fun table_streams :: "redirection \<Rightarrow> int list" where
  "table_streams STDOUT = [STDOUT_FILENO]"
| "table_streams APPEND = [STDOUT_FILENO]"
| "table_streams STDERR = [STDERR_FILENO]"
| "table_streams STDOUT_AND_STDERR = [STDOUT_FILENO, STDERR_FILENO]"
| "table_streams STDIN = [STDIN_FILENO]"

text \<open>The function of shell.c for each mode.\<close>

fun redirection_of :: "redirection \<Rightarrow> string option \<Rightarrow> proc \<Rightarrow> halt option \<times> proc" where
  "redirection_of APPEND = doAppendRedirection"
| "redirection_of STDOUT = doStdoutRedirection"
| "redirection_of STDERR = doStderrRedirection"
| "redirection_of STDOUT_AND_STDERR = doStdoutStderrRedirection"
| "redirection_of STDIN = doStdinRedirection"

text \<open>The mode that continueProcessingLine dispatches a token to, in the order of its tests.\<close>

definition mode_of_token :: "string \<Rightarrow> redirection option" where
  "mode_of_token token =
     (if token = ''>>'' then Some APPEND
      else if token = ''2>'' then Some STDERR
      else if token = ''&>'' then Some STDOUT_AND_STDERR
      else if token = ''>'' then Some STDOUT
      else if token = ''<'' then Some STDIN
      else None)"

text \<open>The three standard descriptors are open.\<close>

definition std_open :: "proc \<Rightarrow> bool" where
  "std_open p =
     (fdt p STDIN_FILENO \<noteq> None \<and> fdt p STDOUT_FILENO \<noteq> None \<and> fdt p STDERR_FILENO \<noteq> None)"

text \<open>
  Pipes are numbered as they are created; no descriptor refers to a pipe that does not
  exist yet.
\<close>

definition pipes_fresh :: "proc \<Rightarrow> bool" where
  "pipes_fresh p =
     (\<forall>fd k. fdt p fd = Some (PipeRead k) \<or> fdt p fd = Some (PipeWrite k) \<longrightarrow> k < npipes p)"

text \<open>Both conditions on the descriptor table.\<close>

definition descriptors_ok :: "proc \<Rightarrow> bool" where
  "descriptors_ok p = (std_open p \<and> pipes_fresh p)"

text \<open>A list of tokens that is a sequence of redirections: operator, file name, and so on.\<close>

fun redirections_only :: "string list \<Rightarrow> bool" where
  "redirections_only [] = True"
| "redirections_only [token] = False"
| "redirections_only (token # filename # rest) =
     (mode_of_token token \<noteq> None \<and> redirections_only rest)"

text \<open>
  open can succeed on a file, as far as the file goes: it exists and its owner bits allow
  the access, or it does not exist and O_CREAT is given.
\<close>

definition can_open :: "(string \<Rightarrow> perm set option) \<Rightarrow> oflag set \<Rightarrow> string \<Rightarrow> bool" where
  "can_open files flags name =
     (case files name of None \<Rightarrow> O_CREAT \<in> flags | Some pm \<Rightarrow> may_access flags pm)"

text \<open>
  Every file of a sequence of redirections can be opened when its turn comes, given the
  files that exist at the start: a file that an earlier redirection creates exists
  afterwards, with the owner's read, write and execute bits.
\<close>

fun redirections_openable :: "(string \<Rightarrow> perm set option) \<Rightarrow> string list \<Rightarrow> bool" where
  "redirections_openable files [] = True"
| "redirections_openable files [token] = False"
| "redirections_openable files (token # filename # rest) =
     (case mode_of_token token of
        None \<Rightarrow> False
      | Some m \<Rightarrow>
          can_open files (table_flags m) filename \<and>
          redirections_openable
            (if files filename = None then files(filename \<mapsto> S_IRWXU) else files) rest)"

text \<open>
  What a descriptor is bound to after the redirections of such a list, taken from left to
  right, when it was bound to \<open>cur\<close> before: a later redirection of the same descriptor
  replaces an earlier one.
\<close>

fun bound_after :: "int \<Rightarrow> string list \<Rightarrow> ofile option \<Rightarrow> ofile option" where
  "bound_after fd (token # filename # rest) cur =
     bound_after fd rest
       (case mode_of_token token of
          None \<Rightarrow> cur
        | Some m \<Rightarrow>
            if fd \<in> set (table_streams m) then Some (File filename (table_flags m)) else cur)"
| "bound_after fd toks cur = cur"

subsection \<open>Example states and lines\<close>

text \<open>A process with the three standard descriptors on the terminal and a few files.\<close>

definition demo_fs :: "string \<Rightarrow> perm set option" where
  "demo_fs = [''/bin/echo'' \<mapsto> {S_IRUSR, S_IXUSR}, ''/bin/cat'' \<mapsto> {S_IRUSR, S_IXUSR},
              ''in.txt'' \<mapsto> {S_IRUSR, S_IWUSR}]"

definition demo_proc :: proc where
  "demo_proc =
     \<lparr>fdt = [0 \<mapsto> Terminal, 1 \<mapsto> Terminal, 2 \<mapsto> Terminal],
      fs = demo_fs, loadable = (\<lambda>name. name \<in> set [''/bin/echo'', ''/bin/cat'']), nofile = 8, npipes = 0, forks = [], waits = [], childPid = 0, trace = []\<rparr>"

text \<open>Two lines, and the argument array that parseArgs fills from the first command of each.\<close>

definition demo_line :: "string list" where
  "demo_line = [''/bin/echo'', ''hi'', ''|'', ''/bin/cat'']"

definition demo_redirections :: "string list" where
  "demo_redirections = [''/bin/echo'', ''hi'', ''>'', ''a.txt'', ''>'', ''b.txt'']"


definition demo_args :: "string option list" where
  "demo_args = [Some ''/bin/echo'', Some ''hi'', None, None]"

section \<open>parseArgs\<close>

lemma plain_run_step:
  "lineIndex < length line \<Longrightarrow> \<not> isSpecial (line ! lineIndex) \<Longrightarrow>
   plain_run line lineIndex = line ! lineIndex # plain_run line (Suc lineIndex)"
  by (simp add: plain_run_def Cons_nth_drop_Suc [symmetric])

lemma plain_run_stop:
  "length line \<le> lineIndex \<or> isSpecial (line ! lineIndex) \<Longrightarrow> plain_run line lineIndex = []"
  by (cases "lineIndex < length line") (auto simp: plain_run_def Cons_nth_drop_Suc [symmetric])

lemma plain_run_le:
  "lineIndex \<le> length line \<Longrightarrow> lineIndex + length (plain_run line lineIndex) \<le> length line"
  unfolding plain_run_def
  using length_takeWhile_le [of "\<lambda>t. \<not> isSpecial t" "drop lineIndex line"] by simp

text \<open>
  What the loop computes from any value of its counter \<open>i\<close>: the cells below \<open>i\<close> stay,
  the run of tokens follows, then the NULL, and the cells behind it stay as well.
\<close>

lemma parseArgs_loop_eq:
  "lineIndex \<le> length line \<Longrightarrow>
   parseArgs_loop args line lineIndex i =
     (if i + length (plain_run line lineIndex) < length args
      then Some (take i args @ map Some (plain_run line lineIndex) @
                   None # drop (Suc (i + length (plain_run line lineIndex))) args,
                 lineIndex + length (plain_run line lineIndex))
      else None)"
proof (induction args line lineIndex i rule: parseArgs_loop.induct)
  case (1 args line lineIndex i)
  show ?case
  proof (cases "lineIndex < length line \<and> \<not> isSpecial (line ! lineIndex)")
    case True
    then have run: "plain_run line lineIndex = line ! lineIndex # plain_run line (Suc lineIndex)"
      by (simp add: plain_run_step)
    show ?thesis
    proof (cases "i < length args")
      case False
      with True show ?thesis
        by (subst parseArgs_loop.simps) (simp add: run)
    next
      case i: True
      have "parseArgs_loop args line lineIndex i =
            parseArgs_loop (args[i := Some (line ! lineIndex)]) line (Suc lineIndex) (Suc i)"
        using True i by (subst parseArgs_loop.simps) simp
      also have "\<dots> =
        (if Suc i + length (plain_run line (Suc lineIndex)) < length args
         then Some (take (Suc i) (args[i := Some (line ! lineIndex)]) @
                      map Some (plain_run line (Suc lineIndex)) @
                      None # drop (Suc (Suc i + length (plain_run line (Suc lineIndex))))
                               (args[i := Some (line ! lineIndex)]),
                    Suc lineIndex + length (plain_run line (Suc lineIndex)))
         else None)"
        using "1.IH" True i "1.prems" by simp
      also have "take (Suc i) (args[i := Some (line ! lineIndex)]) =
                 take i args @ [Some (line ! lineIndex)]"
        using i by (simp add: take_Suc_conv_app_nth)
      finally show ?thesis
        by (simp add: run)
    qed
  next
    case False
    then have run: "plain_run line lineIndex = []"
      using "1.prems" by (intro plain_run_stop) auto
    from False "1.prems" show ?thesis
      by (subst parseArgs_loop.simps) (auto simp: run upd_conv_take_nth_drop)
  qed
qed

lemma parseArgs_eq:
  "lineIndex \<le> length line \<Longrightarrow>
   parseArgs args line lineIndex =
     (if length (plain_run line lineIndex) < length args
      then Some (map Some (plain_run line lineIndex) @
                   None # drop (Suc (length (plain_run line lineIndex))) args,
                 lineIndex + length (plain_run line lineIndex))
      else None)"
  by (simp add: parseArgs_def parseArgs_loop_eq)

lemma parseArgs_past_end: "length line < lineIndex \<Longrightarrow> parseArgs args line lineIndex = None"
  by (simp add: parseArgs_def parseArgs_loop.simps)

lemma parseArgs_cursor:
  assumes "parseArgs args line lineIndex = Some (args', j)"
  shows "lineIndex \<le> j \<and> j \<le> length line \<and> j = lineIndex + length (plain_run line lineIndex)"
proof (cases "lineIndex \<le> length line")
  case True
  with assms plain_run_le [OF True] show ?thesis
    by (auto simp: parseArgs_eq split: if_splits)
next
  case False
  with assms show ?thesis by (simp add: parseArgs_past_end)
qed

lemma parseArgs_stops_at_special:
  assumes "parseArgs args line lineIndex = Some (args', j)"
  shows "j = length line \<or> isSpecial (line ! j)"
proof -
  have le: "lineIndex \<le> length line"
    using assms by (cases "lineIndex \<le> length line") (simp_all add: parseArgs_past_end)
  have j: "j = lineIndex + length (takeWhile (\<lambda>t. \<not> isSpecial t) (drop lineIndex line))"
    using parseArgs_cursor [OF assms] by (simp add: plain_run_def)
  show ?thesis
  proof (cases "j < length line")
    case True
    then have "length (takeWhile (\<lambda>t. \<not> isSpecial t) (drop lineIndex line)) < length (drop lineIndex line)"
      using j by simp
    from nth_length_takeWhile [OF this] show ?thesis
      using j True by (simp add: add.commute)
  next
    case False
    with parseArgs_cursor [OF assms] show ?thesis by simp
  qed
qed

lemma argv_of_terminated: "argv_of (map Some xs @ None # rest) = xs"
  by (induction xs) (simp_all add: argv_of_def)

lemma parseArgs_argv:
  "parseArgs args line lineIndex = Some (args', j) \<Longrightarrow> argv_of args' = plain_run line lineIndex"
  by (cases "lineIndex \<le> length line")
     (auto simp: parseArgs_eq parseArgs_past_end argv_of_terminated split: if_splits)

text \<open>The cells of the array before the call do not matter to the arguments and the cursor.\<close>

lemma parseArgs_initial_cells:
  assumes "length args1 = length args2"
  shows "map_option (\<lambda>(a, j). (argv_of a, j)) (parseArgs args1 line lineIndex) =
         map_option (\<lambda>(a, j). (argv_of a, j)) (parseArgs args2 line lineIndex)"
  using assms
  by (cases "lineIndex \<le> length line")
     (simp_all add: parseArgs_eq parseArgs_past_end argv_of_terminated not_le)

text \<open>
  Claim C10. parseArgs writes the cells 0 to k of the argument array, where k is the
  number of tokens in the run it copies (the NULL goes to cell k), and nothing checks k
  against the size MAX_ARGS of the array. A write outside the array is the result \<open>None\<close>
  of the model. So, from a cursor inside the line: every write falls on a cell 0 to
  MAX_ARGS - 1 exactly when the run has fewer than MAX_ARGS tokens; and then the array
  keeps its MAX_ARGS cells, cells 0 to k hold the run and the NULL, and the cells behind
  cell k are not written.
\<close>

theorem parseArgs_writes_in_bounds:
  assumes "lineIndex \<le> length line" and "length args = MAX_ARGS"
  shows "(parseArgs args line lineIndex \<noteq> None) = (length (plain_run line lineIndex) < MAX_ARGS) \<and>
         (\<forall>args' j. parseArgs args line lineIndex = Some (args', j) \<longrightarrow>
            length args' = MAX_ARGS \<and>
            take (Suc (length (plain_run line lineIndex))) args' =
              map Some (plain_run line lineIndex) @ [None] \<and>
            drop (Suc (length (plain_run line lineIndex))) args' =
              drop (Suc (length (plain_run line lineIndex))) args)"
  using assms by (auto simp: parseArgs_eq)

theorem parseArgs_writes_in_bounds_witness:
  "(0::nat) \<le> length [''/bin/echo'', ''hi'', ''>'', ''out.txt''] \<and>
   length (replicate 4 (None :: string option)) = 4 \<and>
   parseArgs (replicate 4 None) [''/bin/echo'', ''hi'', ''>'', ''out.txt''] 0 \<noteq> None \<and>
   length (plain_run [''/bin/echo'', ''hi'', ''>'', ''out.txt''] 0) < 4 \<and>
   parseArgs (replicate 4 None) [''/bin/echo'', ''hi'', ''>'', ''out.txt''] 0 =
     Some ([Some ''/bin/echo'', Some ''hi'', None, None], 2)"
  using parseArgs_writes_in_bounds
          [of 0 "[''/bin/echo'', ''hi'', ''>'', ''out.txt'']" "replicate 4 None" 4]
  by (simp add: plain_run_def isSpecial_def parseArgs_def parseArgs_loop.simps eval_nat_numeral)

text \<open>With an array of two cells the same line makes parseArgs write outside it.\<close>

lemma parseArgs_overflow_example:
  "parseArgs (replicate 2 None) [''/bin/echo'', ''hi'', ''>'', ''out.txt''] 0 = None"
  by (simp add: isSpecial_def parseArgs_def parseArgs_loop.simps eval_nat_numeral)

section \<open>Operators\<close>

lemma isSpecial_iff:
  "isSpecial t \<longleftrightarrow> t = ''<'' \<or> t = ''>'' \<or> t = ''|'' \<or> (\<exists>c. t = [c, CHR ''>''])"
proof (cases t)
  case Nil
  then show ?thesis by (simp add: isSpecial_def)
next
  case (Cons c u)
  note t = this
  show ?thesis
  proof (cases u)
    case Nil
    with t show ?thesis by (simp add: isSpecial_def)
  next
    case (Cons d v)
    with t show ?thesis by (cases v) (simp_all add: isSpecial_def)
  qed
qed

lemma operator_tokens_special: "t \<in> set operator_tokens \<Longrightarrow> isSpecial t"
  by (auto simp: operator_tokens_def isSpecial_def)

text \<open>A token that is none of the six is left alone by continueProcessingLine, which returns.\<close>

lemma continueProcessingLine_other_token:
  "lineIndex < length line \<Longrightarrow> line ! lineIndex \<notin> set operator_tokens \<Longrightarrow>
   continueProcessingLine MAX_ARGS line lineIndex args p = (None, lineIndex, p)"
  by (subst continueProcessingLine.simps) (simp add: line_at_def operator_tokens_def)

text \<open>
  Claim C3 (fails on the code). The token \<open>a>\<close> is none of the six operator forms, yet
  isSpecial accepts it, as it accepts every token of two characters that ends in \<open>>\<close>.
  continueProcessingLine, which compares with the six forms exactly, then finds no branch
  for it and returns without launching the command.
\<close>

theorem isSpecial_accepts_non_operator:
  "isSpecial ''a>'' \<and> ''a>'' \<notin> set operator_tokens \<and>
   continueProcessingLine 4 [''/bin/echo'', ''a>'', ''b''] 1
       [Some ''/bin/echo'', None, None, None] demo_proc
     = (None, 1, demo_proc)"
  by (simp add: isSpecial_def operator_tokens_def continueProcessingLine.simps line_at_def)

text \<open>
  Claim C8 (fails on the code, by the defect of claim C3). On the line
  \<open>/bin/echo a> b\<close> the three tokens are plain arguments, none being one of the six
  operator forms; parseArgs copies only the first and leaves the cursor on \<open>a>\<close>.
\<close>

theorem parseArgs_stops_at_non_operator:
  "parseArgs (replicate 4 None) [''/bin/echo'', ''a>'', ''b''] 0 =
     Some ([Some ''/bin/echo'', None, None, None], 1) \<and>
   ''a>'' \<notin> set operator_tokens \<and> ''b'' \<notin> set operator_tokens"
  by (simp add: parseArgs_def parseArgs_loop.simps isSpecial_def operator_tokens_def
        eval_nat_numeral)

section \<open>The foreground process ID\<close>

lemma signalHandler_trace:
  "trace (signalHandler p) =
     (if 0 < childPid p then trace p @ [EvKill SIGINT (childPid p)] else trace p)"
  by (simp add: signalHandler_def PARENT_PID_def sys_kill_def logev_def)

text \<open>
  Claim C1 (fails on the code). With process 4242 in \<open>childPid\<close> the handler calls kill
  with the process argument 2 (the number of SIGINT) and the signal argument 4242: the
  two arguments are in the wrong order, and nothing is sent to process 4242.
\<close>

theorem signalHandler_kill_arguments_swapped:
  "trace (signalHandler (demo_proc\<lparr>childPid := 4242\<rparr>)) = [EvKill 2 4242]"
  by (simp add: signalHandler_def PARENT_PID_def sys_kill_def logev_def SIGINT_def demo_proc_def)

text \<open>
  In the shell process a pass of the loop of main that forks leaves the process ID of the
  child in \<open>childPid\<close>, whatever the line and whatever waitpid reports.
\<close>

lemma wait_loop_childPid:
  "wait_loop pid ws p = Some (st, p1) \<Longrightarrow> childPid p1 = childPid p"
proof (induction ws arbitrary: p)
  case Nil
  then show ?case by simp
next
  case (Cons s ss)
  then show ?case
    by (cases s) (auto simp: Let_def logev_def)
qed

lemma main_iteration_parent_childPid:
  assumes "line \<noteq> []"
      and "parseArgs (replicate MAX_ARGS None) line 0 = Some (args, j)"
      and "hd args = Some cmd" and "cmd \<noteq> ''ls''" and "cmd \<noteq> ''rm''"
      and "forkWrapper p = (Inr pid, p1)" and "\<not> CHILD_PID pid"
      and "main_iteration MAX_ARGS line p = Some (r, p')"
  shows "r = None \<and> childPid p' = pid \<and> pid \<noteq> 0"
proof -
  let ?p2 = "p1\<lparr>childPid := pid\<rparr>"
  from assms have
    "(case wait_loop pid (waits p1) ?p2 of
        None \<Rightarrow> None
      | Some (status, p3) \<Rightarrow> Some (None, printf ''Child %ld exited with status %d '' p3))
     = Some (r, p')"
    by (simp add: main_iteration_def Let_def)
  then obtain st p3 where w: "wait_loop pid (waits p1) ?p2 = Some (st, p3)"
    and r: "r = None" "p' = printf ''Child %ld exited with status %d '' p3"
    by (auto split: option.splits)
  from wait_loop_childPid [OF w] r assms(7) show ?thesis
    by (simp add: CHILD_PID_def printf_def logev_def)
qed

text \<open>
  Claim C4 (fails on the code). One pass of the loop of main in the shell: fork returns
  4242, waitpid reports that the child was killed by signal 2, the pass ends, and
  \<open>childPid\<close> still holds 4242. No statement of shell.c stores 0 in it.
\<close>

theorem childPid_not_cleared_after_wait:
  "map_option (\<lambda>(h, p). (h, childPid p))
     (main_iteration 4 [''/bin/cat''] (demo_proc\<lparr>forks := [4242], waits := [WSignaled 2]\<rparr>))
   = Some (None, 4242)"
  by (simp add: main_iteration_def parseArgs_def parseArgs_loop.simps isSpecial_def
        forkWrapper_def sys_fork_def logev_def demo_proc_def CHILD_PID_def printf_def
        eval_nat_numeral)

section \<open>The descriptor table\<close>

lemma find_lowest: "find P xs = Some x \<Longrightarrow> P x \<and> x \<in> set xs"
  by (auto simp: find_Some_iff)

lemma lowest_free_Some: "lowest_free p = Some fd \<Longrightarrow> fdt p fd = None \<and> 0 \<le> fd"
  unfolding lowest_free_def by (drule find_lowest) auto

lemma install_cases:
  assumes "install name flags p = (fd, p1)"
  shows "(fd = - 1 \<and> p1 = p) \<or>
         (0 \<le> fd \<and> fdt p fd = None \<and> p1 = p\<lparr>fdt := (fdt p)(fd \<mapsto> File name flags)\<rparr>)"
  using assms by (auto simp: install_def split: option.splits dest: lowest_free_Some)

lemma sys_open_cases:
  assumes "sys_open path flags mode p = (fd, p1)"
  shows "(fd = - 1 \<and> p1 = logev (EvOpen path flags mode) p) \<or>
         (\<exists>name. path = Some name \<and> 0 \<le> fd \<and> fdt p fd = None \<and>
                 (fs p name = None \<longrightarrow> O_CREAT \<in> flags) \<and>
                 fdt p1 = (fdt p)(fd \<mapsto> File name flags) \<and>
                 fs p1 = (if fs p name = None then (fs p)(name \<mapsto> mode) else fs p) \<and>
                 trace p1 = trace p @ [EvOpen path flags mode] \<and>
                 nofile p1 = nofile p \<and> npipes p1 = npipes p \<and> forks p1 = forks p \<and>
                 waits p1 = waits p \<and> childPid p1 = childPid p)"
proof (cases path)
  case None
  with assms show ?thesis by (simp add: sys_open_def Let_def)
next
  case (Some name)
  obtain fd2 p2 where inst: "install name flags (logev (EvOpen path flags mode) p) = (fd2, p2)"
    by (cases "install name flags (logev (EvOpen path flags mode) p)")
  from install_cases [OF inst] assms Some inst show ?thesis
    by (auto simp: sys_open_def Let_def logev_def split: option.splits if_splits)
qed

lemma sys_open_failed:
  "fst (sys_open path flags mode p) < 0 \<Longrightarrow>
   sys_open path flags mode p = (- 1, logev (EvOpen path flags mode) p)"
  using sys_open_cases [of path flags mode p "fst (sys_open path flags mode p)"
                           "snd (sys_open path flags mode p)"]
  by (auto simp: prod_eq_iff)

lemma logev_simps [simp]:
  "fdt (logev e p) = fdt p" "fs (logev e p) = fs p" "nofile (logev e p) = nofile p"
  "npipes (logev e p) = npipes p" "forks (logev e p) = forks p" "waits (logev e p) = waits p"
  "childPid (logev e p) = childPid p" "trace (logev e p) = trace p @ [e]"
  by (simp_all add: logev_def)

lemma sys_close_simps [simp]:
  "fdt (sys_close fd p) = (fdt p)(fd := None)" "fs (sys_close fd p) = fs p"
  "nofile (sys_close fd p) = nofile p" "npipes (sys_close fd p) = npipes p"
  "forks (sys_close fd p) = forks p" "waits (sys_close fd p) = waits p"
  "childPid (sys_close fd p) = childPid p" "trace (sys_close fd p) = trace p @ [EvClose fd]"
  by (simp_all add: sys_close_def)

lemma sys_dup2_simps [simp]:
  "fdt (sys_dup2 oldfd newfd p) =
     (if fdt p oldfd = None then fdt p else (fdt p)(newfd := fdt p oldfd))"
  "fs (sys_dup2 oldfd newfd p) = fs p"
  "nofile (sys_dup2 oldfd newfd p) = nofile p" "npipes (sys_dup2 oldfd newfd p) = npipes p"
  "forks (sys_dup2 oldfd newfd p) = forks p" "waits (sys_dup2 oldfd newfd p) = waits p"
  "childPid (sys_dup2 oldfd newfd p) = childPid p"
  "trace (sys_dup2 oldfd newfd p) = trace p @ [EvDup2 oldfd newfd]"
  by (auto simp: sys_dup2_def Let_def)

lemma redirect_effect:
  assumes opened: "sys_open filename flags S_IRWXU p = (nfd, p1)" "\<not> nfd < 0"
      and std: "\<forall>fd \<in> set targets. fdt p fd \<noteq> None"
      and p': "p' = sys_close nfd (fold (sys_dup2 nfd) targets p1)"
      and two: "targets = [a] \<or> targets = [a, b]"
  shows "\<exists>name. filename = Some name \<and> fdt p nfd = None \<and>
           fdt p' = (\<lambda>fd. if fd \<in> set targets then Some (File name flags) else fdt p fd) \<and>
           fs p' = (if fs p name = None then (fs p)(name \<mapsto> S_IRWXU) else fs p) \<and>
           (fs p name = None \<longrightarrow> O_CREAT \<in> flags) \<and>
           trace p' = trace p @ EvOpen (Some name) flags S_IRWXU # map (EvDup2 nfd) targets @ [EvClose nfd]"
proof -
  from sys_open_cases [OF opened(1)] opened(2)
  obtain name where name: "filename = Some name" and free: "fdt p nfd = None"
      and creat: "fs p name = None \<longrightarrow> O_CREAT \<in> flags"
      and fdt1: "fdt p1 = (fdt p)(nfd \<mapsto> File name flags)"
      and fs1: "fs p1 = (if fs p name = None then (fs p)(name \<mapsto> S_IRWXU) else fs p)"
      and tr1: "trace p1 = trace p @ [EvOpen filename flags S_IRWXU]"
    by auto
  have neq: "\<forall>fd \<in> set targets. fd \<noteq> nfd"
    using std free by auto
  have fs': "fs p' = fs p1"
    using two by (auto simp: p')
  have tr': "trace p' = trace p1 @ map (EvDup2 nfd) targets @ [EvClose nfd]"
    using two by (auto simp: p')
  have "fdt p' fd = (if fd \<in> set targets then Some (File name flags) else fdt p fd)" for fd
    using two neq free by (auto simp: p' fdt1)
  then have "fdt p' = (\<lambda>fd. if fd \<in> set targets then Some (File name flags) else fdt p fd)"
    by (rule ext)
  with name free creat fs' fs1 tr' tr1 show ?thesis
    by simp
qed

text \<open>The effect of each of the five redirection functions when its open succeeds.\<close>

lemma redirection_of_effect:
  assumes "redirection_of m filename p = (None, p')"
      and "\<forall>fd \<in> set (table_streams m). fdt p fd \<noteq> None"
  shows "\<exists>name file. filename = Some name \<and> fdt p file = None \<and>
           fdt p' = (\<lambda>fd. if fd \<in> set (table_streams m)
                          then Some (File name (table_flags m)) else fdt p fd) \<and>
           fs p' = (if fs p name = None then (fs p)(name \<mapsto> S_IRWXU) else fs p) \<and>
           (fs p name = None \<longrightarrow> m \<noteq> STDIN) \<and>
           trace p' = trace p @ EvOpen (Some name) (table_flags m) S_IRWXU #
                        map (EvDup2 file) (table_streams m) @ [EvClose file]"
proof -
  obtain nfd p1 where opened: "sys_open filename (table_flags m) S_IRWXU p = (nfd, p1)"
    by (cases "sys_open filename (table_flags m) S_IRWXU p")
  note defs = doAppendRedirection_def doStdoutRedirection_def doStderrRedirection_def
    doStdoutStderrRedirection_def doStdinRedirection_def
  have ok: "\<not> nfd < 0"
    using assms(1) opened by (cases m) (simp_all add: defs split: if_splits)
  have p': "p' = sys_close nfd (fold (sys_dup2 nfd) (table_streams m) p1)"
    using assms(1) opened by (cases m) (simp_all add: defs split: if_splits)
  have two: "table_streams m = [hd (table_streams m)] \<or>
             table_streams m = [hd (table_streams m), STDERR_FILENO]"
    by (cases m) simp_all
  from redirect_effect [OF opened ok assms(2) p' two]
  obtain name where r: "filename = Some name \<and> fdt p nfd = None \<and>
           fdt p' = (\<lambda>fd. if fd \<in> set (table_streams m)
                          then Some (File name (table_flags m)) else fdt p fd) \<and>
           fs p' = (if fs p name = None then (fs p)(name \<mapsto> S_IRWXU) else fs p) \<and>
           (fs p name = None \<longrightarrow> O_CREAT \<in> table_flags m) \<and>
           trace p' = trace p @ EvOpen (Some name) (table_flags m) S_IRWXU #
                        map (EvDup2 nfd) (table_streams m) @ [EvClose nfd]"
    ..
  then have "fs p name = None \<longrightarrow> m \<noteq> STDIN"
    by (cases m) simp_all
  with r show ?thesis
    by (intro exI [of _ name] exI [of _ nfd]) simp
qed


lemma lowest_free_logev [simp]: "lowest_free (logev e p) = lowest_free p"
  by (simp add: lowest_free_def)


lemma redirection_of_returns:
  assumes "sys_open filename (table_flags m) S_IRWXU p = (nfd, p1)" and "\<not> nfd < 0"
  shows "redirection_of m filename p =
           (None, sys_close nfd (fold (sys_dup2 nfd) (table_streams m) p1))"
  using assms
  by (cases m)
     (simp_all add: doAppendRedirection_def doStdoutRedirection_def doStderrRedirection_def
        doStdoutStderrRedirection_def doStdinRedirection_def)

lemma redirection_of_succeeds:
  assumes "\<not> fst (sys_open filename (table_flags m) S_IRWXU p) < 0"
      and "\<forall>fd \<in> set (table_streams m). fdt p fd \<noteq> None"
  shows "\<exists>name file p'.
           redirection_of m filename p = (None, p') \<and>
           filename = Some name \<and> fdt p file = None \<and>
           fdt p' = (\<lambda>fd. if fd \<in> set (table_streams m)
                          then Some (File name (table_flags m)) else fdt p fd) \<and>
           fs p' = (if fs p name = None then (fs p)(name \<mapsto> S_IRWXU) else fs p) \<and>
           (fs p name = None \<longrightarrow> m \<noteq> STDIN) \<and>
           trace p' = trace p @ EvOpen (Some name) (table_flags m) S_IRWXU #
                        map (EvDup2 file) (table_streams m) @ [EvClose file]"
proof -
  obtain nfd p1 where opened: "sys_open filename (table_flags m) S_IRWXU p = (nfd, p1)"
    by (cases "sys_open filename (table_flags m) S_IRWXU p")
  with assms(1) have ok: "\<not> nfd < 0" by simp
  define p' where "p' = sys_close nfd (fold (sys_dup2 nfd) (table_streams m) p1)"
  have ret: "redirection_of m filename p = (None, p')"
    unfolding p'_def using redirection_of_returns [OF opened ok] .
  from redirection_of_effect [OF ret assms(2)]
  obtain name nfd' where eff: "filename = Some name \<and> fdt p nfd' = None \<and>
           fdt p' = (\<lambda>fd. if fd \<in> set (table_streams m)
                          then Some (File name (table_flags m)) else fdt p fd) \<and>
           fs p' = (if fs p name = None then (fs p)(name \<mapsto> S_IRWXU) else fs p) \<and>
           (fs p name = None \<longrightarrow> m \<noteq> STDIN) \<and>
           trace p' = trace p @ EvOpen (Some name) (table_flags m) S_IRWXU #
                        map (EvDup2 nfd') (table_streams m) @ [EvClose nfd']"
    by (elim exE)
  with ret show ?thesis
    by (intro exI [of _ name] exI [of _ nfd'] exI [of _ p']) simp
qed

lemma redirection_of_open_failed:
  assumes "fst (sys_open filename (table_flags m) S_IRWXU p) < 0"
  shows "fst (redirection_of m filename p) = Some (Exited 1) \<and>
         fdt (snd (redirection_of m filename p)) = fdt p"
  using sys_open_failed [OF assms]
  by (cases m)
     (simp_all add: doAppendRedirection_def doStdoutRedirection_def doStderrRedirection_def
        doStdoutStderrRedirection_def doStdinRedirection_def sys_exit_def perror_def)

text \<open>
  Claim C6. Let the standard descriptors that a mode rebinds be open. When open succeeds,
  the function of that mode returns; the file was opened with the flags of the table for
  the mode and with the mode argument S_IRWXU, on a descriptor \<open>file\<close> that was free;
  each descriptor of the table is now bound to that open file (both stdout and stderr
  for STDOUT_AND_STDERR) and every other descriptor is as before, so \<open>file\<close> itself is
  closed again; a file that did not exist was created with the owner's read, write and
  execute bits, which for STDIN never happens, as that mode requires the file to exist;
  and the calls made are open, one dup2 per rebound descriptor, and close, in this
  order. When open fails, the function ends the process with status 1 and the
  descriptors are as before.
\<close>

theorem redirection_follows_table:
  assumes "\<forall>fd \<in> set (table_streams m). fdt p fd \<noteq> None"
  shows "(\<not> fst (sys_open filename (table_flags m) S_IRWXU p) < 0 \<longrightarrow>
            (\<exists>name file p'.
               redirection_of m filename p = (None, p') \<and>
               filename = Some name \<and> fdt p file = None \<and>
               fdt p' = (\<lambda>fd. if fd \<in> set (table_streams m)
                              then Some (File name (table_flags m)) else fdt p fd) \<and>
               fs p' = (if fs p name = None then (fs p)(name \<mapsto> S_IRWXU) else fs p) \<and>
               (fs p name = None \<longrightarrow> m \<noteq> STDIN) \<and>
               trace p' = trace p @ EvOpen (Some name) (table_flags m) S_IRWXU #
                            map (EvDup2 file) (table_streams m) @ [EvClose file])) \<and>
         (fst (sys_open filename (table_flags m) S_IRWXU p) < 0 \<longrightarrow>
            fst (redirection_of m filename p) = Some (Exited 1) \<and>
            fdt (snd (redirection_of m filename p)) = fdt p)"
  using redirection_of_succeeds [OF _ assms, of filename]
        redirection_of_open_failed [of filename m p]
  by blast

theorem redirection_follows_table_witness:
  "fdt demo_proc STDIN_FILENO \<noteq> None \<and> fdt demo_proc STDOUT_FILENO \<noteq> None \<and>
   fdt demo_proc STDERR_FILENO \<noteq> None \<and>
   \<not> fst (sys_open (Some ''log.txt'') (table_flags APPEND) S_IRWXU demo_proc) < 0 \<and>
   fst (redirection_of APPEND (Some ''log.txt'') demo_proc) = None \<and>
   fdt (snd (redirection_of APPEND (Some ''log.txt'') demo_proc)) STDOUT_FILENO =
     Some (File ''log.txt'' {O_CREAT, O_APPEND, O_WRONLY}) \<and>
   \<not> fst (sys_open (Some ''out.txt'') (table_flags STDOUT) S_IRWXU demo_proc) < 0 \<and>
   fst (redirection_of STDOUT (Some ''out.txt'') demo_proc) = None \<and>
   fdt (snd (redirection_of STDOUT (Some ''out.txt'') demo_proc)) STDOUT_FILENO =
     Some (File ''out.txt'' {O_CREAT, O_TRUNC, O_WRONLY}) \<and>
   fs (snd (redirection_of STDOUT (Some ''out.txt'') demo_proc)) ''out.txt'' = Some S_IRWXU \<and>
   trace (snd (redirection_of STDOUT (Some ''out.txt'') demo_proc)) =
     [EvOpen (Some ''out.txt'') {O_CREAT, O_TRUNC, O_WRONLY} S_IRWXU,
      EvDup2 3 STDOUT_FILENO, EvClose 3] \<and>
   \<not> fst (sys_open (Some ''err.txt'') (table_flags STDERR) S_IRWXU demo_proc) < 0 \<and>
   fst (redirection_of STDERR (Some ''err.txt'') demo_proc) = None \<and>
   fdt (snd (redirection_of STDERR (Some ''err.txt'') demo_proc)) STDERR_FILENO =
     Some (File ''err.txt'' {O_CREAT, O_TRUNC, O_WRONLY}) \<and>
   \<not> fst (sys_open (Some ''all.txt'') (table_flags STDOUT_AND_STDERR) S_IRWXU demo_proc) < 0 \<and>
   fst (redirection_of STDOUT_AND_STDERR (Some ''all.txt'') demo_proc) = None \<and>
   fdt (snd (redirection_of STDOUT_AND_STDERR (Some ''all.txt'') demo_proc)) STDOUT_FILENO =
     Some (File ''all.txt'' {O_CREAT, O_TRUNC, O_WRONLY}) \<and>
   fdt (snd (redirection_of STDOUT_AND_STDERR (Some ''all.txt'') demo_proc)) STDERR_FILENO =
     Some (File ''all.txt'' {O_CREAT, O_TRUNC, O_WRONLY}) \<and>
   \<not> fst (sys_open (Some ''in.txt'') (table_flags STDIN) S_IRWXU demo_proc) < 0 \<and>
   fst (redirection_of STDIN (Some ''in.txt'') demo_proc) = None \<and>
   fdt (snd (redirection_of STDIN (Some ''in.txt'') demo_proc)) STDIN_FILENO =
     Some (File ''in.txt'' {O_RDONLY}) \<and>
   fdt (snd (redirection_of STDIN (Some ''in.txt'') demo_proc)) 3 = None \<and>
   fst (sys_open (Some ''missing.txt'') (table_flags STDIN) S_IRWXU demo_proc) < 0 \<and>
   fst (redirection_of STDIN (Some ''missing.txt'') demo_proc) = Some (Exited 1)"
proof -
  have std: "\<forall>fd \<in> set (table_streams m). fdt demo_proc fd \<noteq> None" for m
    by (cases m) (simp_all add: demo_proc_def STDIN_FILENO_def STDOUT_FILENO_def STDERR_FILENO_def)
  have opens:
    "\<not> fst (sys_open (Some ''log.txt'') (table_flags APPEND) S_IRWXU demo_proc) < 0"
    "\<not> fst (sys_open (Some ''out.txt'') (table_flags STDOUT) S_IRWXU demo_proc) < 0"
    "\<not> fst (sys_open (Some ''err.txt'') (table_flags STDERR) S_IRWXU demo_proc) < 0"
    "\<not> fst (sys_open (Some ''all.txt'') (table_flags STDOUT_AND_STDERR) S_IRWXU demo_proc) < 0"
    "\<not> fst (sys_open (Some ''in.txt'') (table_flags STDIN) S_IRWXU demo_proc) < 0"
    "fst (sys_open (Some ''missing.txt'') (table_flags STDIN) S_IRWXU demo_proc) < 0"
    by code_simp+
  have more:
    "fdt demo_proc STDIN_FILENO \<noteq> None" "fdt demo_proc STDOUT_FILENO \<noteq> None"
    "fdt demo_proc STDERR_FILENO \<noteq> None"
    "fs demo_proc ''out.txt'' = None"
    "trace (snd (redirection_of STDOUT (Some ''out.txt'') demo_proc)) =
       [EvOpen (Some ''out.txt'') {O_CREAT, O_TRUNC, O_WRONLY} S_IRWXU,
        EvDup2 3 STDOUT_FILENO, EvClose 3]"
    "fdt demo_proc 3 = None"
    by code_simp+
  from redirection_follows_table [where m = APPEND and filename = "Some ''log.txt''" and p = demo_proc, OF std]
       redirection_follows_table [where m = STDOUT and filename = "Some ''out.txt''" and p = demo_proc, OF std]
       redirection_follows_table [where m = STDERR and filename = "Some ''err.txt''" and p = demo_proc, OF std]
       redirection_follows_table [where m = STDOUT_AND_STDERR and filename = "Some ''all.txt''" and p = demo_proc, OF std]
       redirection_follows_table [where m = STDIN and filename = "Some ''in.txt''" and p = demo_proc, OF std]
       redirection_follows_table [where m = STDIN and filename = "Some ''missing.txt''" and p = demo_proc, OF std]
       opens more
  show ?thesis
    by (auto simp: STDIN_FILENO_def STDOUT_FILENO_def STDERR_FILENO_def)
qed

section \<open>Failure exits\<close>

text \<open>
  Claim C2, as amended. When execv fails, run ends the process with status 1; when fork
  fails, forkWrapper ends it with status 2; when pipe fails, pipeWrapper ends it with
  status 4; when open fails, each of the five redirection functions ends it with status
  1. Each status is the last call logged. So the statuses are not zero, fork and pipe
  failure differ from each other and from the other two, and exec failure and file-open
  failure share the status 1.
\<close>

theorem failure_exit_statuses:
  "(None \<in> set args \<and> \<not> execv_ok (hd args) p \<longrightarrow>
      fst (run args p) = Exited 1 \<and> last (trace (snd (run args p))) = EvExit 1) \<and>
   (fst (sys_fork p) < 0 \<longrightarrow>
      fst (forkWrapper p) = Inl (Exited 2) \<and> last (trace (snd (forkWrapper p))) = EvExit 2) \<and>
   (fst (sys_pipe p) < 0 \<longrightarrow>
      fst (pipeWrapper p) = Inl (Exited 4) \<and> last (trace (snd (pipeWrapper p))) = EvExit 4) \<and>
   (fst (sys_open filename (table_flags m) S_IRWXU p) < 0 \<longrightarrow>
      fst (redirection_of m filename p) = Some (Exited 1) \<and>
      last (trace (snd (redirection_of m filename p))) = EvExit 1)"
proof (intro conjI impI)
  assume "None \<in> set args \<and> \<not> execv_ok (hd args) p"
  then show "fst (run args p) = Exited 1" "last (trace (snd (run args p))) = EvExit 1"
    by (simp_all add: run_def Let_def sys_exit_def)
next
  assume "fst (sys_fork p) < 0"
  then show "fst (forkWrapper p) = Inl (Exited 2)"
    "last (trace (snd (forkWrapper p))) = EvExit 2"
    by (auto simp: forkWrapper_def sys_exit_def split: prod.splits)
next
  assume "fst (sys_pipe p) < 0"
  then show "fst (pipeWrapper p) = Inl (Exited 4)"
    "last (trace (snd (pipeWrapper p))) = EvExit 4"
    by (auto simp: pipeWrapper_def sys_exit_def split: prod.splits)
next
  assume "fst (sys_open filename (table_flags m) S_IRWXU p) < 0"
  from sys_open_failed [OF this]
  show "fst (redirection_of m filename p) = Some (Exited 1)"
    "last (trace (snd (redirection_of m filename p))) = EvExit 1"
    by (cases m; simp add: doAppendRedirection_def doStdoutRedirection_def
          doStderrRedirection_def doStdoutStderrRedirection_def doStdinRedirection_def
          sys_exit_def)+
qed

text \<open>
  Claim C2 as stated fails: exec failure and file-open failure end the process with the
  same status, here for a program and a file that do not exist.
\<close>

theorem exec_and_open_failure_share_status:
  "fst (run [Some ''/no/such'', None] demo_proc) = Exited 1 \<and>
   fst (doStdinRedirection (Some ''missing.txt'') demo_proc) = Some (Exited 1)"
  by code_simp

theorem failure_exit_statuses_witness:
  "None \<in> set [Some ''/no/such'', None] \<and>
   \<not> execv_ok (hd [Some ''/no/such'', None]) (demo_proc\<lparr>nofile := 4\<rparr>) \<and>
   fst (run [Some ''/no/such'', None] (demo_proc\<lparr>nofile := 4\<rparr>)) = Exited 1 \<and>
   fst (sys_fork (demo_proc\<lparr>nofile := 4\<rparr>)) < 0 \<and>
   fst (forkWrapper (demo_proc\<lparr>nofile := 4\<rparr>)) = Inl (Exited 2) \<and>
   fst (sys_pipe (demo_proc\<lparr>nofile := 4\<rparr>)) < 0 \<and>
   fst (pipeWrapper (demo_proc\<lparr>nofile := 4\<rparr>)) = Inl (Exited 4) \<and>
   fst (sys_open (Some ''missing.txt'') (table_flags STDIN) S_IRWXU (demo_proc\<lparr>nofile := 4\<rparr>)) < 0 \<and>
   fst (redirection_of STDIN (Some ''missing.txt'') (demo_proc\<lparr>nofile := 4\<rparr>)) = Some (Exited 1)"
proof -
  have h1: "None \<in> set [Some ''/no/such'', None] \<and>
            \<not> execv_ok (hd [Some ''/no/such'', None]) (demo_proc\<lparr>nofile := 4\<rparr>)"
    by code_simp
  have h2: "fst (sys_fork (demo_proc\<lparr>nofile := 4\<rparr>)) < 0"
    by code_simp
  have h3: "fst (sys_pipe (demo_proc\<lparr>nofile := 4\<rparr>)) < 0"
    by code_simp
  have h4: "fst (sys_open (Some ''missing.txt'') (table_flags STDIN) S_IRWXU
                  (demo_proc\<lparr>nofile := 4\<rparr>)) < 0"
    by code_simp
  from failure_exit_statuses
         [of "[Some ''/no/such'', None]" "demo_proc\<lparr>nofile := 4\<rparr>" "Some ''missing.txt''" STDIN]
       h1 h2 h3 h4
  show ?thesis by simp
qed

section \<open>Pipes\<close>

lemma printf_simps [simp]:
  "fdt (printf msg p) = fdt p" "fs (printf msg p) = fs p" "nofile (printf msg p) = nofile p"
  "npipes (printf msg p) = npipes p" "forks (printf msg p) = forks p"
  "waits (printf msg p) = waits p" "childPid (printf msg p) = childPid p"
  "trace (printf msg p) = trace p @ [EvPrintf msg]"
  by (simp_all add: printf_def)

lemma sys_pipe_cases:
  assumes "sys_pipe p = (ret, (r, w), p1)"
  shows "(ret = - 1 \<and> p1 = logev EvPipe p) \<or>
         (ret = 0 \<and> r \<noteq> w \<and> fdt p r = None \<and> fdt p w = None \<and>
          fdt p1 = (fdt p)(r \<mapsto> PipeRead (npipes p), w \<mapsto> PipeWrite (npipes p)) \<and>
          npipes p1 = Suc (npipes p) \<and> trace p1 = trace p @ [EvPipe] \<and>
          fs p1 = fs p \<and> nofile p1 = nofile p \<and> forks p1 = forks p \<and>
          waits p1 = waits p \<and> childPid p1 = childPid p)"
proof (cases "lowest_free (logev EvPipe p)")
  case None
  with assms show ?thesis by (simp add: sys_pipe_def Let_def)
next
  case (Some r')
  note r' = this
  let ?p2 = "(logev EvPipe p)\<lparr>fdt := (fdt (logev EvPipe p))(r' \<mapsto> PipeRead (npipes (logev EvPipe p)))\<rparr>"
  show ?thesis
  proof (cases "lowest_free ?p2")
    case None
    with assms r' show ?thesis by (simp add: sys_pipe_def Let_def)
  next
    case (Some w')
    from lowest_free_Some [OF r'] have fr: "fdt p r' = None" by simp
    from lowest_free_Some [OF Some] have fw: "w' \<noteq> r'" "fdt p w' = None"
      by (auto split: if_splits)
    from assms r' Some fr fw show ?thesis
      by (auto simp: sys_pipe_def Let_def)
  qed
qed

lemma pipeWrapper_Inr:
  assumes "pipeWrapper p = (Inr (r, w), p1)"
  shows "r \<noteq> w \<and> fdt p r = None \<and> fdt p w = None \<and>
         fdt p1 = (fdt p)(r \<mapsto> PipeRead (npipes p), w \<mapsto> PipeWrite (npipes p)) \<and>
         npipes p1 = Suc (npipes p) \<and> trace p1 = trace p @ [EvPipe]"
proof -
  obtain ret fds q where sp: "sys_pipe p = (ret, fds, q)"
    by (cases "sys_pipe p")
  with assms have "\<not> ret < 0" "fds = (r, w)" "q = p1"
    by (auto simp: pipeWrapper_def split: if_splits)
  with sys_pipe_cases [of p ret r w p1] sp show ?thesis by auto
qed




section \<open>The cursor\<close>

lemma operator_tokens_iff:
  "t \<in> set operator_tokens \<longleftrightarrow> mode_of_token t \<noteq> None \<or> t = ''|''"
  by (simp add: operator_tokens_def mode_of_token_def)

lemma continueProcessingLine_past_end:
  "length line < lineIndex \<Longrightarrow>
   continueProcessingLine MAX_ARGS line lineIndex args p = (Some Fault, lineIndex, p)"
  by (subst continueProcessingLine.simps) simp

lemma continueProcessingLine_at_end:
  "lineIndex = length line \<Longrightarrow>
   continueProcessingLine MAX_ARGS line lineIndex args p =
     (case run args p of (h, p1) \<Rightarrow> (Some h, lineIndex, p1))"
  by (subst continueProcessingLine.simps) (simp add: line_at_def)

lemma continueProcessingLine_redirection:
  "lineIndex < length line \<Longrightarrow> mode_of_token (line ! lineIndex) = Some m \<Longrightarrow>
   continueProcessingLine MAX_ARGS line lineIndex args p =
     (case redirection_of m (line_at line (Suc lineIndex)) p of
        (Some h, p1) \<Rightarrow> (Some h, Suc lineIndex, p1)
      | (None, p1) \<Rightarrow> continueProcessingLine MAX_ARGS line (Suc (Suc lineIndex)) args p1)"
  by (subst continueProcessingLine.simps)
     (auto simp: line_at_def mode_of_token_def split: if_splits)

lemma continueProcessingLine_pipe:
  "lineIndex < length line \<Longrightarrow> line ! lineIndex = ''|'' \<Longrightarrow>
   continueProcessingLine MAX_ARGS line lineIndex args p =
     doPipe MAX_ARGS args line (Suc lineIndex) p"
  by (subst continueProcessingLine.simps) (simp add: line_at_def)

lemma redirection_of_halt:
  assumes "redirection_of m filename p = (Some h, p1)"
  shows "h = Exited 1"
  using assms
  by (cases m)
     (auto simp: doAppendRedirection_def doStdoutRedirection_def doStderrRedirection_def
        doStdoutStderrRedirection_def doStdinRedirection_def split: prod.splits if_splits)

lemma redirection_of_NULL:
  "redirection_of m None p = (h, p1) \<Longrightarrow> h = Some (Exited 1)"
  by (cases m)
     (auto simp: doAppendRedirection_def doStdoutRedirection_def doStderrRedirection_def
        doStdoutStderrRedirection_def doStdinRedirection_def sys_open_def Let_def)

lemma doPipe_cases:
  assumes "doPipe MAX_ARGS p1Args line lineIndex p = (h, k, p')"
  shows "k = lineIndex \<or>
         (\<exists>args j pp. parseArgs (replicate MAX_ARGS None) line lineIndex = Some (args, j) \<and>
                      continueProcessingLine MAX_ARGS line j args pp = (h, k, p'))"
  using assms
  by (subst (asm) doPipe.simps)
     (auto simp: Let_def split: prod.splits sum.splits if_splits option.splits)

lemma continueProcessingLine_cursor:
  "continueProcessingLine MAX_ARGS line lineIndex args p = (h, k, p') \<Longrightarrow>
   lineIndex \<le> k \<and> (lineIndex \<le> length line \<longrightarrow> k \<le> length line)"
proof (induction "Suc (length line) - lineIndex" arbitrary: lineIndex args p rule: less_induct)
  case less
  note res = less.prems
  consider (past) "length line < lineIndex" | (fin) "lineIndex = length line"
    | (redir) m where "lineIndex < length line" "mode_of_token (line ! lineIndex) = Some m"
    | (pipe) "lineIndex < length line" "line ! lineIndex = ''|''"
    | (other) "lineIndex < length line" "line ! lineIndex \<notin> set operator_tokens"
    by (cases "lineIndex < length line"; cases "mode_of_token (line ! lineIndex)")
       (auto simp: operator_tokens_iff not_less le_less)
  then show ?case
  proof cases
    case past
    with res show ?thesis by (simp add: continueProcessingLine_past_end)
  next
    case fin
    with res show ?thesis
      by (auto simp: continueProcessingLine_at_end split: prod.splits)
  next
    case redir
    obtain r p1 where step: "redirection_of m (line_at line (Suc lineIndex)) p = (r, p1)"
      by (cases "redirection_of m (line_at line (Suc lineIndex)) p")
    show ?thesis
    proof (cases r)
      case (Some a)
      with res redir step show ?thesis
        by (simp add: continueProcessingLine_redirection)
    next
      case None
      with step redirection_of_NULL [of m p r p1] have "Suc lineIndex < length line"
        by (auto simp: line_at_def split: if_splits)
      moreover from res redir step None
      have "continueProcessingLine MAX_ARGS line (Suc (Suc lineIndex)) args p1 = (h, k, p')"
        by (simp add: continueProcessingLine_redirection)
      moreover from calculation
      have "Suc (length line) - Suc (Suc lineIndex) < Suc (length line) - lineIndex"
        by arith
      ultimately show ?thesis
        using less.hyps [of "Suc (Suc lineIndex)" args p1] by simp
    qed
  next
    case pipe
    with res have dp: "doPipe MAX_ARGS args line (Suc lineIndex) p = (h, k, p')"
      by (simp add: continueProcessingLine_pipe)
    from doPipe_cases [OF dp] show ?thesis
    proof
      assume "k = Suc lineIndex"
      with pipe show ?thesis by simp
    next
      assume "\<exists>args' j pp. parseArgs (replicate MAX_ARGS None) line (Suc lineIndex) = Some (args', j) \<and>
                continueProcessingLine MAX_ARGS line j args' pp = (h, k, p')"
      then obtain args' j pp
        where pa: "parseArgs (replicate MAX_ARGS None) line (Suc lineIndex) = Some (args', j)"
          and rec: "continueProcessingLine MAX_ARGS line j args' pp = (h, k, p')"
        by blast
      from parseArgs_cursor [OF pa] have j: "Suc lineIndex \<le> j" "j \<le> length line"
        by simp_all
      then have "Suc (length line) - j < Suc (length line) - lineIndex"
        by arith
      from less.hyps [OF this rec] j show ?thesis by simp
    qed
  next
    case other
    with res show ?thesis by (simp add: continueProcessingLine_other_token)
  qed
qed

lemma continueProcessingLine_consumes_operator:
  assumes "continueProcessingLine MAX_ARGS line lineIndex args p = (h, k, p')"
      and "lineIndex < length line" and "line ! lineIndex \<in> set operator_tokens"
  shows "lineIndex < k"
proof (cases "line ! lineIndex = ''|''")
  case True
  with assms have dp: "doPipe MAX_ARGS args line (Suc lineIndex) p = (h, k, p')"
    by (simp add: continueProcessingLine_pipe)
  from doPipe_cases [OF dp] show ?thesis
  proof
    assume "k = Suc lineIndex" then show ?thesis by simp
  next
    assume "\<exists>args' j pp. parseArgs (replicate MAX_ARGS None) line (Suc lineIndex) = Some (args', j) \<and>
              continueProcessingLine MAX_ARGS line j args' pp = (h, k, p')"
    then obtain args' j pp
      where pa: "parseArgs (replicate MAX_ARGS None) line (Suc lineIndex) = Some (args', j)"
        and rec: "continueProcessingLine MAX_ARGS line j args' pp = (h, k, p')"
      by blast
    from parseArgs_cursor [OF pa] continueProcessingLine_cursor [OF rec]
    show ?thesis by simp
  qed
next
  case False
  with assms(3) obtain m where m: "mode_of_token (line ! lineIndex) = Some m"
    by (auto simp: operator_tokens_iff)
  obtain r p1 where step: "redirection_of m (line_at line (Suc lineIndex)) p = (r, p1)"
    by (cases "redirection_of m (line_at line (Suc lineIndex)) p")
  show ?thesis
  proof (cases r)
    case (Some a)
    with assms m step show ?thesis
      by (simp add: continueProcessingLine_redirection)
  next
    case None
    with assms m step
    have "continueProcessingLine MAX_ARGS line (Suc (Suc lineIndex)) args p1 = (h, k, p')"
      by (simp add: continueProcessingLine_redirection)
    from continueProcessingLine_cursor [OF this] show ?thesis by simp
  qed
qed

lemma doPipe_cursor:
  assumes "doPipe MAX_ARGS p1Args line lineIndex p = (h, k, p')"
  shows "lineIndex \<le> k \<and> (lineIndex \<le> length line \<longrightarrow> k \<le> length line)"
  using doPipe_cases [OF assms]
proof
  assume "k = lineIndex" then show ?thesis by simp
next
  assume "\<exists>args j pp. parseArgs (replicate MAX_ARGS None) line lineIndex = Some (args, j) \<and>
            continueProcessingLine MAX_ARGS line j args pp = (h, k, p')"
  then obtain args j pp
    where pa: "parseArgs (replicate MAX_ARGS None) line lineIndex = Some (args, j)"
      and rec: "continueProcessingLine MAX_ARGS line j args pp = (h, k, p')"
    by blast
  from parseArgs_cursor [OF pa] continueProcessingLine_cursor [OF rec]
  show ?thesis by simp
qed

text \<open>
  Claim C7. The token-extraction pass leaves the cursor at its old value plus the number
  of tokens it copied, inside the line. continueProcessingLine and doPipe leave the
  cursor at or after its old value, inside the line when it started there, and
  continueProcessingLine leaves it strictly after its old value whenever the token under
  the cursor is one of the six operators, which it consumes. Interpretation terminates:
  continueProcessingLine, doPipe and the loop of parseArgs are defined by recursion on
  the cursor, and their termination is proved at their definitions with the number of
  tokens from the cursor to the end of the line as the measure.
\<close>

theorem cursor_only_advances:
  "(parseArgs args line lineIndex = Some (args', j) \<longrightarrow>
      lineIndex \<le> j \<and> j \<le> length line \<and> j = lineIndex + length (argv_of args')) \<and>
   (continueProcessingLine MAX_ARGS line lineIndex args p = (h, k, p') \<longrightarrow>
      lineIndex \<le> k \<and> (lineIndex \<le> length line \<longrightarrow> k \<le> length line) \<and>
      (lineIndex < length line \<and> line ! lineIndex \<in> set operator_tokens \<longrightarrow> lineIndex < k)) \<and>
   (doPipe MAX_ARGS args line lineIndex p = (h, k, p') \<longrightarrow>
      lineIndex \<le> k \<and> (lineIndex \<le> length line \<longrightarrow> k \<le> length line))"
  using parseArgs_cursor [of args line lineIndex args' j]
        parseArgs_argv [of args line lineIndex args' j]
        continueProcessingLine_cursor [of MAX_ARGS line lineIndex args p h k p']
        continueProcessingLine_consumes_operator [of MAX_ARGS line lineIndex args p h k p']
        doPipe_cursor [of MAX_ARGS args line lineIndex p h k p']
  by simp

theorem cursor_only_advances_witness:
  "parseArgs (replicate 4 None) demo_redirections 0 = Some (demo_args, 2) \<and>
   (0::nat) \<le> 2 \<and> 2 \<le> length demo_redirections \<and> 2 = 0 + length (argv_of demo_args) \<and>
   fst (snd (continueProcessingLine 4 demo_redirections 2 demo_args demo_proc)) = 6 \<and>
   2 < length demo_redirections \<and> demo_redirections ! 2 \<in> set operator_tokens \<and>
   fst (snd (doPipe 4 demo_args demo_line 3 (demo_proc\<lparr>forks := [4243]\<rparr>))) = 4 \<and>
   4 \<le> length demo_line"
proof -
  let ?c = "continueProcessingLine 4 demo_redirections 2 demo_args demo_proc"
  let ?d = "doPipe 4 demo_args demo_line 3 (demo_proc\<lparr>forks := [4243]\<rparr>)"
  have ev: "parseArgs (replicate 4 None) demo_redirections 0 = Some (demo_args, 2)"
    "fst (snd ?c) = 6" "2 < length demo_redirections"
    "demo_redirections ! 2 \<in> set operator_tokens"
    "fst (snd ?d) = 4" "length demo_line = 4" "length (argv_of demo_args) = 2"
    by code_simp+
  have c: "?c = (fst ?c, 6, snd (snd ?c))" and d: "?d = (fst ?d, 4, snd (snd ?d))"
    using ev by (simp_all add: prod_eq_iff)
  from cursor_only_advances
         [of "replicate 4 None" demo_redirections 0 demo_args 2 4 demo_proc "fst ?c" 6 "snd (snd ?c)"]
       cursor_only_advances
         [of demo_args demo_redirections 2 demo_args 2 4 demo_proc "fst ?c" 6 "snd (snd ?c)"]
       cursor_only_advances
         [of demo_args demo_line 3 demo_args 2 4 "demo_proc\<lparr>forks := [4243]\<rparr>" "fst ?d" 4 "snd (snd ?d)"]
       ev c d
  show ?thesis by simp
qed

section \<open>Redirections in sequence\<close>

lemma table_streams_std:
  "std_open p \<Longrightarrow> \<forall>fd \<in> set (table_streams m). fdt p fd \<noteq> None"
  by (cases m) (simp_all add: std_open_def)

lemma redirection_of_std_open:
  assumes "redirection_of m filename p = (None, p1)" and "std_open p"
  shows "std_open p1"
  using redirection_of_effect [OF assms(1) table_streams_std [OF assms(2)]] assms(2)
  by (auto simp: std_open_def)

lemma run_Execd:
  "run args p = (Execd path argv, p1) \<Longrightarrow> fdt p1 = fdt p \<and> argv = argv_of args \<and> hd args = Some path"
  by (auto simp: run_def Let_def execv_ok_def split: if_splits option.splits)

lemma drop_two:
  assumes "x # y # rest = drop i xs"
  shows "Suc i < length xs \<and> xs ! i = x \<and> xs ! Suc i = y \<and> drop (Suc (Suc i)) xs = rest"
proof -
  have d1: "drop i xs = x # y # rest"
    using assms by simp
  have d2: "drop (Suc i) xs = y # rest"
    using d1 by (metis drop_Suc tl_drop list.sel(3))
  have d3: "drop (Suc (Suc i)) xs = rest"
    using d2 by (metis drop_Suc tl_drop list.sel(3))
  from d2 have "Suc i < length xs"
    by (cases "Suc i < length xs") auto
  with nth_via_drop [OF d1] nth_via_drop [OF d2] d3 show ?thesis
    by simp
qed

lemma launch_descriptors:
  assumes "redirections_only (drop lineIndex line)"
      and "std_open p"
      and "continueProcessingLine MAX_ARGS line lineIndex args p = (Some (Execd path argv), j, p')"
  shows "fdt p' fd = bound_after fd (drop lineIndex line) (fdt p fd)"
  using assms
proof (induction "drop lineIndex line" arbitrary: lineIndex p rule: redirections_only.induct)
  case 1
  then have "length line \<le> lineIndex" by simp
  with "1.prems"(3) have "lineIndex = length line"
    by (cases "length line < lineIndex") (simp_all add: continueProcessingLine_past_end)
  with "1.prems"(3) "1.hyps" [symmetric] show ?case
    by (auto simp: continueProcessingLine_at_end split: prod.splits dest: run_Execd)
next
  case (2 token)
  then show ?case by (metis redirections_only.simps(2))
next
  case (3 token filename rest)
  note tail = "3.hyps"(2)
  from drop_two [OF tail]
  have len: "Suc lineIndex < length line" and tok: "line ! lineIndex = token"
    and fname: "line_at line (Suc lineIndex) = Some filename"
    and rest: "rest = drop (Suc (Suc lineIndex)) line"
    by (simp_all add: line_at_def)
  from "3.prems"(1) obtain m where m: "mode_of_token token = Some m" and ro: "redirections_only rest"
    unfolding tail [symmetric] by auto
  obtain r p1 where step: "redirection_of m (Some filename) p = (r, p1)"
    by (cases "redirection_of m (Some filename) p")
  have unfold: "continueProcessingLine MAX_ARGS line lineIndex args p =
     (case redirection_of m (Some filename) p of
        (Some h, p1) \<Rightarrow> (Some h, Suc lineIndex, p1)
      | (None, p1) \<Rightarrow> continueProcessingLine MAX_ARGS line (Suc (Suc lineIndex)) args p1)"
    using continueProcessingLine_redirection [of lineIndex line m MAX_ARGS args p] len tok m fname
    by simp
  show ?case
  proof (cases r)
    case (Some h)
    with step redirection_of_halt [of m "Some filename" p h p1] "3.prems"(3) unfold
    show ?thesis by simp
  next
    case None
    with step "3.prems"(3) unfold
    have rec: "continueProcessingLine MAX_ARGS line (Suc (Suc lineIndex)) args p1 =
                 (Some (Execd path argv), j, p')"
      by simp
    from step None have ok: "redirection_of m (Some filename) p = (None, p1)"
      by simp
    have std1: "std_open p1"
      using redirection_of_std_open [OF ok "3.prems"(2)] .
    from redirection_of_effect [OF ok table_streams_std [OF "3.prems"(2)]]
    have fdt1: "fdt p1 fd =
      (if fd \<in> set (table_streams m) then Some (File filename (table_flags m)) else fdt p fd)"
      by auto
    from "3.hyps"(1) [OF rest _ std1 rec] ro rest
    have "fdt p' fd = bound_after fd rest (fdt p1 fd)"
      by simp
    then show ?thesis
      unfolding tail [symmetric] by (simp add: m fdt1)
  qed
qed



lemma sys_dup2_more [simp]: "loadable (sys_dup2 a b p) = loadable p"
  by (simp add: sys_dup2_def Let_def logev_def)

lemma sys_close_more [simp]: "loadable (sys_close a p) = loadable p"
  by (simp add: sys_close_def logev_def)



lemma redirections_openable_only:
  "redirections_openable files toks \<Longrightarrow> redirections_only toks"
  by (induction files toks rule: redirections_openable.induct) (auto split: option.splits)





section \<open>The descriptor table stays well formed\<close>

text \<open>
  The two conditions that the properties of the redirections and of doPipe assume hold
  in every state that continueProcessingLine reaches from a state in which they hold:
  the code closes only descriptors that it has just opened.
\<close>

lemma descriptors_ok_same:
  "descriptors_ok p \<Longrightarrow> fdt p1 = fdt p \<Longrightarrow> npipes p1 = npipes p \<Longrightarrow> descriptors_ok p1"
  by (simp add: descriptors_ok_def std_open_def pipes_fresh_def)

lemma descriptors_ok_free:
  "descriptors_ok p \<Longrightarrow> fdt p fd = None \<Longrightarrow>
   fd \<noteq> STDIN_FILENO \<and> fd \<noteq> STDOUT_FILENO \<and> fd \<noteq> STDERR_FILENO"
  by (auto simp: descriptors_ok_def std_open_def)

lemma sys_exit_simps [simp]:
  "fdt (sys_exit n p) = fdt p" "npipes (sys_exit n p) = npipes p"
  "fdt (perror msg p) = fdt p" "npipes (perror msg p) = npipes p"
  by (simp_all add: sys_exit_def perror_def)

lemma run_frame: "run args p = (h, p1) \<Longrightarrow> fdt p1 = fdt p \<and> npipes p1 = npipes p"
  by (auto simp: run_def Let_def split: if_splits)

lemma redirection_of_frame:
  assumes "redirection_of m filename p = (r, p1)" and "descriptors_ok p"
  shows "descriptors_ok p1"
proof (cases r)
  case None
  with assms(1) have ok: "redirection_of m filename p = (None, p1)" by simp
  from assms(2) have std: "std_open p" by (simp add: descriptors_ok_def)
  from redirection_of_effect [OF ok table_streams_std [OF std]]
  have fdt1: "fdt p1 = (\<lambda>fd. if fd \<in> set (table_streams m)
                          then Some (File (the filename) (table_flags m)) else fdt p fd)"
    by auto
  have np: "npipes p1 = npipes p"
    using ok
    by (cases m)
       (auto simp: doAppendRedirection_def doStdoutRedirection_def doStderrRedirection_def
          doStdoutStderrRedirection_def doStdinRedirection_def
          split: prod.splits if_splits dest!: sys_open_cases)
  from assms(2) show ?thesis
    by (auto simp: descriptors_ok_def std_open_def pipes_fresh_def fdt1 np split: if_splits)
next
  case (Some h)
  with assms(1) have "fdt p1 = fdt p \<and> npipes p1 = npipes p"
    by (cases m)
       (auto simp: doAppendRedirection_def doStdoutRedirection_def doStderrRedirection_def
          doStdoutStderrRedirection_def doStdinRedirection_def
          split: prod.splits if_splits dest!: sys_open_cases)
  with assms(2) show ?thesis by (simp add: descriptors_ok_same)
qed

lemma pipeWrapper_frame:
  assumes "pipeWrapper p = (r, p1)" and "descriptors_ok p"
  shows "descriptors_ok p1"
proof (cases r)
  case (Inl h)
  obtain ret fds q where sp: "sys_pipe p = (ret, fds, q)"
    by (cases "sys_pipe p")
  with assms(1) Inl have "ret < 0" "p1 = sys_exit 4 (perror ''pipe'' q)"
    by (auto simp: pipeWrapper_def split: if_splits)
  with sys_pipe_cases [of p ret "fst fds" "snd fds" q] sp
  have "fdt p1 = fdt p \<and> npipes p1 = npipes p" by auto
  with assms(2) show ?thesis by (simp add: descriptors_ok_same)
next
  case (Inr fds)
  with assms(1) have "pipeWrapper p = (Inr (fst fds, snd fds), p1)" by simp
  from pipeWrapper_Inr [OF this] assms(2) show ?thesis
    by (auto simp: descriptors_ok_def std_open_def pipes_fresh_def less_Suc_eq split: if_splits)
qed

lemma forkWrapper_frame:
  "forkWrapper p = (r, p1) \<Longrightarrow> fdt p1 = fdt p \<and> npipes p1 = npipes p"
  by (auto simp: forkWrapper_def sys_fork_def Let_def split: if_splits list.splits)

lemma sys_close_ok:
  "descriptors_ok p \<Longrightarrow>
   fd \<noteq> STDIN_FILENO \<and> fd \<noteq> STDOUT_FILENO \<and> fd \<noteq> STDERR_FILENO \<Longrightarrow>
   descriptors_ok (sys_close fd p)"
  by (auto simp: descriptors_ok_def std_open_def pipes_fresh_def)

lemma sys_dup2_ok: "descriptors_ok p \<Longrightarrow> descriptors_ok (sys_dup2 oldfd newfd p)"
  by (auto simp: descriptors_ok_def std_open_def pipes_fresh_def)

lemma printf_ok: "descriptors_ok p \<Longrightarrow> descriptors_ok (printf msg p)"
  by (simp add: descriptors_ok_same)

lemma doPipe_cases_ok:
  assumes res: "doPipe MAX_ARGS p1Args line lineIndex p = (h, k, p')"
      and ok: "descriptors_ok p"
  shows "(k = lineIndex \<and> descriptors_ok p') \<or>
         (\<exists>args j pp. parseArgs (replicate MAX_ARGS None) line lineIndex = Some (args, j) \<and>
                      descriptors_ok pp \<and>
                      continueProcessingLine MAX_ARGS line j args pp = (h, k, p'))"
proof -
  obtain r1 p1 where pw: "pipeWrapper p = (r1, p1)"
    by (cases "pipeWrapper p")
  have ok1: "descriptors_ok p1"
    using pipeWrapper_frame [OF pw ok] .
  show ?thesis
  proof (cases r1)
    case (Inl e)
    with res pw ok1 show ?thesis
      by (subst (asm) doPipe.simps) simp
  next
    case (Inr fds)
    obtain rfd wfd where fds: "fds = (rfd, wfd)"
      by (cases fds)
    with pw Inr have pw': "pipeWrapper p = (Inr (rfd, wfd), p1)"
      by simp
    from pipeWrapper_Inr [OF pw'] descriptors_ok_free [OF ok]
    have nstd: "rfd \<noteq> STDIN_FILENO \<and> rfd \<noteq> STDOUT_FILENO \<and> rfd \<noteq> STDERR_FILENO"
               "wfd \<noteq> STDIN_FILENO \<and> wfd \<noteq> STDOUT_FILENO \<and> wfd \<noteq> STDERR_FILENO"
      by simp_all
    obtain r2 p2 where fw: "forkWrapper p1 = (r2, p2)"
      by (cases "forkWrapper p1")
    have ok2: "descriptors_ok p2"
      using forkWrapper_frame [OF fw] ok1 by (simp add: descriptors_ok_same)
    show ?thesis
    proof (cases r2)
      case (Inl e)
      with res pw' fw ok2 show ?thesis
        by (subst (asm) doPipe.simps) simp
    next
      case (Inr pid)
      show ?thesis
      proof (cases "CHILD_PID pid")
        case True
        let ?pc = "sys_dup2 wfd STDOUT_FILENO (sys_close rfd p2)"
        have okc: "descriptors_ok ?pc"
          using ok2 nstd by (intro sys_dup2_ok sys_close_ok)
        obtain h0 p3 where rn: "run p1Args ?pc = (h0, p3)"
          by (cases "run p1Args ?pc")
        from run_frame [OF rn] okc have "descriptors_ok p3"
          by (simp add: descriptors_ok_same)
        moreover from res pw' fw Inr True rn have "k = lineIndex \<and> p' = p3"
          by (subst (asm) doPipe.simps) simp
        ultimately show ?thesis by simp
      next
        case False
        let ?pp = "printf ''Finish parent pipe ''
                     (sys_dup2 rfd STDIN_FILENO
                       (printf ''right before doing read in parent pipe '' (sys_close wfd p2)))"
        have okp: "descriptors_ok ?pp"
          using ok2 nstd by (intro printf_ok sys_dup2_ok sys_close_ok)
        from res pw' fw Inr False
        have *: "(case parseArgs (replicate MAX_ARGS None) line lineIndex of
                    None \<Rightarrow> (Some Fault, lineIndex, ?pp)
                  | Some (args, j) \<Rightarrow> continueProcessingLine MAX_ARGS line j args ?pp) = (h, k, p')"
          by (subst (asm) doPipe.simps) (simp add: Let_def)
        show ?thesis
        proof (cases "parseArgs (replicate MAX_ARGS None) line lineIndex")
          case None
          with * okp show ?thesis by auto
        next
          case (Some a)
          with * okp show ?thesis by (cases a) auto
        qed
      qed
    qed
  qed
qed

lemma continueProcessingLine_descriptors_ok:
  "continueProcessingLine MAX_ARGS line lineIndex args p = (h, k, p') \<Longrightarrow>
   descriptors_ok p \<Longrightarrow> descriptors_ok p'"
proof (induction "Suc (length line) - lineIndex" arbitrary: lineIndex args p rule: less_induct)
  case less
  note res = less.prems(1) and ok = less.prems(2)
  consider (past) "length line < lineIndex" | (fin) "lineIndex = length line"
    | (redir) m where "lineIndex < length line" "mode_of_token (line ! lineIndex) = Some m"
    | (pipe) "lineIndex < length line" "line ! lineIndex = ''|''"
    | (other) "lineIndex < length line" "line ! lineIndex \<notin> set operator_tokens"
    by (cases "lineIndex < length line"; cases "mode_of_token (line ! lineIndex)")
       (auto simp: operator_tokens_iff not_less le_less)
  then show ?case
  proof cases
    case past
    with res ok show ?thesis by (simp add: continueProcessingLine_past_end)
  next
    case fin
    obtain h0 p1 where rn: "run args p = (h0, p1)"
      by (cases "run args p")
    with res fin have "p' = p1"
      by (simp add: continueProcessingLine_at_end)
    with run_frame [OF rn] ok show ?thesis
      by (simp add: descriptors_ok_same)
  next
    case redir
    obtain r p1 where step: "redirection_of m (line_at line (Suc lineIndex)) p = (r, p1)"
      by (cases "redirection_of m (line_at line (Suc lineIndex)) p")
    have ok1: "descriptors_ok p1"
      using redirection_of_frame [OF step ok] .
    show ?thesis
    proof (cases r)
      case (Some a)
      with res redir step ok1 show ?thesis
        by (simp add: continueProcessingLine_redirection)
    next
      case None
      with res redir step
      have rec: "continueProcessingLine MAX_ARGS line (Suc (Suc lineIndex)) args p1 = (h, k, p')"
        by (simp add: continueProcessingLine_redirection)
      from redir have "Suc (length line) - Suc (Suc lineIndex) < Suc (length line) - lineIndex"
        by arith
      from less.hyps [OF this rec ok1] show ?thesis .
    qed
  next
    case pipe
    with res have dp: "doPipe MAX_ARGS args line (Suc lineIndex) p = (h, k, p')"
      by (simp add: continueProcessingLine_pipe)
    from doPipe_cases_ok [OF dp ok] show ?thesis
    proof
      assume "k = Suc lineIndex \<and> descriptors_ok p'"
      then show ?thesis by simp
    next
      assume "\<exists>args' j pp. parseArgs (replicate MAX_ARGS None) line (Suc lineIndex) = Some (args', j) \<and>
                descriptors_ok pp \<and> continueProcessingLine MAX_ARGS line j args' pp = (h, k, p')"
      then obtain args' j pp
        where pa: "parseArgs (replicate MAX_ARGS None) line (Suc lineIndex) = Some (args', j)"
          and okp: "descriptors_ok pp"
          and rec: "continueProcessingLine MAX_ARGS line j args' pp = (h, k, p')"
        by blast
      from parseArgs_cursor [OF pa] pipe
      have "Suc (length line) - j < Suc (length line) - lineIndex"
        by arith
      from less.hyps [OF this rec okp] show ?thesis .
    qed
  next
    case other
    with res ok show ?thesis by (simp add: continueProcessingLine_other_token)
  qed
qed

lemma demo_proc_descriptors_ok: "descriptors_ok demo_proc"
  by (auto simp: descriptors_ok_def std_open_def pipes_fresh_def demo_proc_def
        STDIN_FILENO_def STDOUT_FILENO_def STDERR_FILENO_def split: if_splits)

end
